theory Spec2Isabelle
  imports Main "HOL-Library.Sublist"
begin

section \<open>Errors, sessions and playback formats\<close>

text \<open>
  A thrown exception or a rejected promise is a value of type \<open>error\<close>; a fallible
  call returns \<open>error + 'a\<close> with \<open>Inl\<close> for the failure. \<open>TypeError\<close> is what the runtime
  raises on a property read of \<open>null\<close>/\<open>undefined\<close>; \<open>Failure\<close> stands for any rejection
  coming from the upstream library or the network.
\<close>

datatype error = TypeError | Failure string

text \<open>
  Text whose code units matter (a manifest, the content of a cache file) is a list of
  UTF-16 code units; everything else is a string of 8-bit characters.
\<close>

type_synonym units = "nat list"

text \<open>A session handle (\<open>Innertube\<close> instance); only its identity matters here.\<close>

type_synonym Innertube = nat

text \<open>
  \<open>InnertubeFormat\<close> of \<open>src/types.ts\<close>. The method \<open>decipher(player)\<close> is represented by
  its outcome for this format object: the signed URL, or the rejection.
\<close>

record InnertubeFormat =
  has_video :: bool
  has_audio :: bool
  height :: "int option"
  mime_type :: "string option"
  quality_label :: "string option"
  content_length :: "int option"
  decipher :: "error + string"

record InnertubeStreamingData =
  hls_manifest_url :: "string option"
  formats :: "InnertubeFormat list option"
  adaptive_formats :: "InnertubeFormat list option"

text \<open>
  \<open>InnertubeVideoInfo\<close>: \<open>basic_info\<close> is kept as the three strings the code reads from
  it; \<open>toDash()\<close> is represented by its outcome.
\<close>

record BasicInfo =
  bi_title :: "string option"
  bi_channel_name :: "string option"
  bi_author :: "string option"

record InnertubeVideoInfo =
  streaming_data :: "InnertubeStreamingData option"
  basic_info :: "BasicInfo option"
  toDash :: "error + units"

record VideoInfoCache =
  contentId :: string
  info :: InnertubeVideoInfo
  innertube :: Innertube

record HlsManifestCache =
  hls_contentId :: string
  hls_text :: units
  hlsUrl :: string

section \<open>Engine state and the upstream environment\<close>

text \<open>
  The two single-slot caches of the closure (\<open>_videoInfoCache\<close>, \<open>_hlsManifestCache\<close>),
  plus a ghost log of the metadata requests (\<open>getShortsVideoInfo\<close>) issued so far, which
  the source does not keep but which is needed to say "no second fetch".
\<close>

record State =
  videoInfoCache :: "VideoInfoCache option"
  hlsManifestCache :: "HlsManifestCache option"
  metadataFetches :: "string list"

text \<open>
  What the outside world answers during one call of an operation: the outcome of
  \<open>await getInnertube()\<close>, of the metadata request, of the iOS basic-info request (reduced
  to the HLS URL it carries) and of \<open>host.fetch(url).text()\<close>.
\<close>

record Upstream =
  awaitInnertube :: "error + Innertube"
  getShortsVideoInfo :: "Innertube \<Rightarrow> string \<Rightarrow> error + InnertubeVideoInfo"
  getBasicInfoIOS :: "Innertube \<Rightarrow> string \<Rightarrow> error + string option"
  fetchText :: "string \<Rightarrow> error + units"

text \<open>
  The host capabilities the model needs. \<open>writeCacheFile\<close> is declared to return the URI
  as a string, and is a total function here.
\<close>

datatype Platform = ios | android

record Host =
  platform :: Platform
  writeCacheFile :: "string \<Rightarrow> units \<Rightarrow> string"

subsection \<open>\<open>getCachedVideoInfo\<close>\<close>

definition cacheHit :: "State \<Rightarrow> string \<Rightarrow> VideoInfoCache option" where
  "cacheHit st cid =
     (case videoInfoCache st of
        None \<Rightarrow> None
      | Some c \<Rightarrow> if contentId c = cid then Some c else None)"

definition getCachedVideoInfo ::
  "Upstream \<Rightarrow> string \<Rightarrow> State \<Rightarrow> (error + InnertubeVideoInfo \<times> Innertube) \<times> State" where
  "getCachedVideoInfo up cid st =
     (case cacheHit st cid of
        Some c \<Rightarrow> (Inr (info c, innertube c), st)
      | None \<Rightarrow>
          (case awaitInnertube up of
             Inl e \<Rightarrow> (Inl e, st)
           | Inr it \<Rightarrow>
               (let st1 = st\<lparr>metadataFetches := metadataFetches st @ [cid]\<rparr> in
                case getShortsVideoInfo up it cid of
                  Inl e \<Rightarrow> (Inl e, st1)
                | Inr i \<Rightarrow>
                    (Inr (i, it),
                     st1\<lparr>videoInfoCache :=
                            Some \<lparr>contentId = cid, info = i, innertube = it\<rparr>\<rparr>))))"

subsection \<open>\<open>getVideoUrlForQuality\<close>\<close>

text \<open>\<open>f.mime_type?.startsWith('video/')\<close>: an absent MIME type is falsy.\<close>

definition isVideoMime :: "InnertubeFormat \<Rightarrow> bool" where
  "isVideoMime f = (case mime_type f of None \<Rightarrow> False | Some m \<Rightarrow> prefix ''video/'' m)"

definition orEmpty :: "'a list option \<Rightarrow> 'a list" where
  "orEmpty xs = (case xs of None \<Rightarrow> [] | Some ys \<Rightarrow> ys)"

definition isMuxedAt :: "int \<Rightarrow> InnertubeFormat \<Rightarrow> bool" where
  "isMuxedAt h f = (has_video f \<and> has_audio f \<and> height f = Some h \<and> isVideoMime f)"

definition isAdaptiveAt :: "int \<Rightarrow> InnertubeFormat \<Rightarrow> bool" where
  "isAdaptiveAt h f = (has_video f \<and> \<not> has_audio f \<and> height f = Some h \<and> isVideoMime f)"

record QualityUrl =
  qu_url :: string
  qu_hasAudio :: bool

text \<open>
  The body inside the \<open>try\<close>, after the metadata is there. A rejected \<open>decipher\<close> is
  caught by the enclosing \<open>catch { return null; }\<close>.
\<close>

definition resolveAtHeight :: "InnertubeVideoInfo \<Rightarrow> int \<Rightarrow> QualityUrl option" where
  "resolveAtHeight i targetHeight =
     (case streaming_data i of
        None \<Rightarrow> None
      | Some sd \<Rightarrow>
          (case find (isMuxedAt targetHeight) (orEmpty (formats sd)) of
             Some muxed \<Rightarrow>
               (case decipher muxed of
                  Inl e \<Rightarrow> None
                | Inr u \<Rightarrow> Some \<lparr>qu_url = u, qu_hasAudio = True\<rparr>)
           | None \<Rightarrow>
               (case find (isAdaptiveAt targetHeight) (orEmpty (adaptive_formats sd)) of
                  Some adaptive \<Rightarrow>
                    (case decipher adaptive of
                       Inl e \<Rightarrow> None
                     | Inr u \<Rightarrow> Some \<lparr>qu_url = u, qu_hasAudio = False\<rparr>)
                | None \<Rightarrow> None)))"

definition getVideoUrlForQuality ::
  "Upstream \<Rightarrow> string \<Rightarrow> int \<Rightarrow> State \<Rightarrow> QualityUrl option \<times> State" where
  "getVideoUrlForQuality up cid targetHeight st =
     (case getCachedVideoInfo up cid st of
        (Inl e, st1) \<Rightarrow> (None, st1)
      | (Inr (i, it), st1) \<Rightarrow> (resolveAtHeight i targetHeight, st1))"

text \<open>The formats a result can be resolved from: both lists of the streaming data.\<close>

definition allFormats :: "InnertubeVideoInfo \<Rightarrow> InnertubeFormat list" where
  "allFormats i =
     (case streaming_data i of
        None \<Rightarrow> []
      | Some sd \<Rightarrow> orEmpty (formats sd) @ orEmpty (adaptive_formats sd))"

section \<open>Quality ladder of the progressive fallback\<close>

subsection \<open>Numbers as text\<close>

text \<open>
  \<open>String(n)\<close> and the template \<open>`${n}`\<close> on an integer: its decimal digits, with a
  leading minus sign below zero. Heights and bandwidths are integers here; the source's
  numbers are doubles, which agree with them below \<open>2^53\<close>.
\<close>

definition digitChar :: "nat \<Rightarrow> char" where
  "digitChar d = ''0123456789'' ! d"

fun showNat :: "nat \<Rightarrow> string" where
  "showNat n = (if n < 10 then [digitChar n] else showNat (n div 10) @ [digitChar (n mod 10)])"

declare showNat.simps [simp del]

definition showInt :: "int \<Rightarrow> string" where
  "showInt i = (if i < 0 then CHR ''-'' # showNat (nat (- i)) else showNat (nat i))"

subsection \<open>\<open>Map\<close> with insertion order\<close>

text \<open>
  A JavaScript \<open>Map\<close> iterates in insertion order, and \<open>set\<close> on a key already there
  replaces the value where it stands: an association list with unique keys.
\<close>

fun mapSet :: "'k \<Rightarrow> 'v \<Rightarrow> ('k \<times> 'v) list \<Rightarrow> ('k \<times> 'v) list" where
  "mapSet k v [] = [(k, v)]"
| "mapSet k v ((k', v') # m) = (if k' = k then (k, v) # m else (k', v') # mapSet k v m)"

definition mapHas :: "'k \<Rightarrow> ('k \<times> 'v) list \<Rightarrow> bool" where
  "mapHas k m = (map_of m k \<noteq> None)"

subsection \<open>The ladder\<close>

record VideoFormatEntry =
  vfe_format :: InnertubeFormat
  vfe_hasAudio :: bool
  vfe_label :: string

record VideoQuality =
  q_label :: string
  q_height :: int
  q_hasAudio :: bool
  q_bitrate :: "nat option"

record VideoPlaybackInfo =
  url :: string
  isDash :: bool
  isHLS :: bool
  hasAudio :: bool
  qualities :: "VideoQuality list"
  defaultHeight :: int

definition muxedFormats :: "InnertubeStreamingData \<Rightarrow> InnertubeFormat list" where
  "muxedFormats sd =
     filter (\<lambda>f. has_video f \<and> has_audio f \<and> isVideoMime f) (orEmpty (formats sd))"

definition adaptiveVideoFormats :: "InnertubeStreamingData \<Rightarrow> InnertubeFormat list" where
  "adaptiveVideoFormats sd =
     filter (\<lambda>f. has_video f \<and> \<not> has_audio f \<and> isVideoMime f) (orEmpty (adaptive_formats sd))"

text \<open>\<open>f.quality_label || `${h}p`\<close>: an absent or empty label falls back to the height.\<close>

definition labelOf :: "InnertubeFormat \<Rightarrow> int \<Rightarrow> string" where
  "labelOf f h =
     (case quality_label f of
        None \<Rightarrow> showInt h @ ''p''
      | Some l \<Rightarrow> if l = [] then showInt h @ ''p'' else l)"

text \<open>The two loop bodies; \<open>if (h)\<close> rejects an absent height and the height \<open>0\<close>.\<close>

definition addMuxed ::
  "InnertubeFormat \<Rightarrow> (int \<times> VideoFormatEntry) list \<Rightarrow> (int \<times> VideoFormatEntry) list" where
  "addMuxed f m =
     (case height f of
        None \<Rightarrow> m
      | Some h \<Rightarrow>
          if h = 0 then m
          else mapSet h \<lparr>vfe_format = f, vfe_hasAudio = True, vfe_label = labelOf f h\<rparr> m)"

definition addAdaptive ::
  "InnertubeFormat \<Rightarrow> (int \<times> VideoFormatEntry) list \<Rightarrow> (int \<times> VideoFormatEntry) list" where
  "addAdaptive f m =
     (case height f of
        None \<Rightarrow> m
      | Some h \<Rightarrow>
          if h \<noteq> 0 \<and> \<not> mapHas h m
          then mapSet h \<lparr>vfe_format = f, vfe_hasAudio = False, vfe_label = labelOf f h\<rparr> m
          else m)"

definition byHeight :: "InnertubeStreamingData \<Rightarrow> (int \<times> VideoFormatEntry) list" where
  "byHeight sd = fold addAdaptive (adaptiveVideoFormats sd) (fold addMuxed (muxedFormats sd) [])"

definition qualityOf :: "int \<times> VideoFormatEntry \<Rightarrow> VideoQuality" where
  "qualityOf p =
     \<lparr>q_label = vfe_label (snd p), q_height = fst p, q_hasAudio = vfe_hasAudio (snd p),
      q_bitrate = None\<rparr>"

text \<open>\<open>qualities.sort((a, b) => a.height - b.height)\<close> is a stable sort on the height.\<close>

definition ladder :: "(int \<times> VideoFormatEntry) list \<Rightarrow> VideoQuality list" where
  "ladder m = sort_key q_height (map qualityOf m)"

text \<open>
  \<open>reduce\<close> without an initial value starts from the first rung and replaces the best
  one only on a strictly smaller distance to 720.
\<close>

definition closer :: "VideoQuality \<Rightarrow> VideoQuality \<Rightarrow> VideoQuality" where
  "closer best q = (if \<bar>q_height q - 720\<bar> < \<bar>q_height best - 720\<bar> then q else best)"

definition progressiveFallback :: "InnertubeStreamingData \<Rightarrow> VideoPlaybackInfo option" where
  "progressiveFallback sd =
     (let m = byHeight sd in
      case ladder m of
        [] \<Rightarrow> None
      | q # qs \<Rightarrow>
          (let defaultQ = foldl closer q qs in
           case map_of m (q_height defaultQ) of
             None \<Rightarrow> None
           | Some entry \<Rightarrow>
               (case decipher (vfe_format entry) of
                  Inl e \<Rightarrow> None
                | Inr u \<Rightarrow>
                    Some \<lparr>url = u, isDash = False, isHLS = False,
                          hasAudio = vfe_hasAudio entry, qualities = q # qs,
                          defaultHeight = q_height defaultQ\<rparr>)))"

section \<open>Text primitives\<close>

text \<open>
  Identifiers, titles and URLs are strings of 8-bit characters. The text of a manifest is
  a list of UTF-16 code units, as natural numbers: \<open>trim\<close> and the patterns of the manifest
  processor work on code units and look at white space beyond ASCII. \<open>lit\<close> gives the code
  units of an ASCII literal. \<open>split('\n')\<close>, \<open>join('\n')\<close>, \<open>trim()\<close> and \<open>includes\<close> are
  written out; \<open>startsWith\<close> is \<^const>\<open>prefix\<close>.
\<close>

definition lit :: "string \<Rightarrow> units" where
  "lit s = map of_char s"

fun splitOn :: "'a \<Rightarrow> 'a list \<Rightarrow> 'a list list" where
  "splitOn c [] = [[]]"
| "splitOn c (x # xs) =
     (if x = c then [] # splitOn c xs
      else (case splitOn c xs of [] \<Rightarrow> [[x]] | y # ys \<Rightarrow> (x # y) # ys))"

fun joinWith :: "'a \<Rightarrow> 'a list list \<Rightarrow> 'a list" where
  "joinWith c [] = []"
| "joinWith c [x] = x"
| "joinWith c (x # y # ys) = x @ c # joinWith c (y # ys)"

definition trimWith :: "('a \<Rightarrow> bool) \<Rightarrow> 'a list \<Rightarrow> 'a list" where
  "trimWith sp s = rev (dropWhile sp (rev (dropWhile sp s)))"

text \<open>
  On 8-bit strings \<open>trim\<close> removes the white space below 256: tab, line feed, vertical tab,
  form feed, carriage return, space and no-break space.
\<close>

definition isSpace :: "char \<Rightarrow> bool" where
  "isSpace c = (c = CHR 0x20 \<or> c = CHR 0x09 \<or> c = CHR 0x0A \<or> c = CHR 0x0B \<or> c = CHR 0x0C
                \<or> c = CHR 0x0D \<or> c = CHR 0xA0)"

definition trim :: "string \<Rightarrow> string" where
  "trim s = trimWith isSpace s"

text \<open>
  On code units \<open>trim\<close> removes the \<open>WhiteSpace\<close> and \<open>LineTerminator\<close> code points of
  ECMAScript: U+0009 to U+000D, U+0020, U+00A0, U+1680, U+2000 to U+200A, U+2028, U+2029,
  U+202F, U+205F, U+3000 and U+FEFF.
\<close>

definition isWhiteSpace :: "nat \<Rightarrow> bool" where
  "isWhiteSpace c =
     ((9 \<le> c \<and> c \<le> 13) \<or> c = 32 \<or> c = 160 \<or> c = 5760 \<or> (8192 \<le> c \<and> c \<le> 8202) \<or> c = 8232
      \<or> c = 8233 \<or> c = 8239 \<or> c = 8287 \<or> c = 12288 \<or> c = 65279)"

definition trimUnits :: "units \<Rightarrow> units" where
  "trimUnits s = trimWith isWhiteSpace s"

fun includesStr :: "'a list \<Rightarrow> 'a list \<Rightarrow> bool" where
  "includesStr pat [] = (pat = [])"
| "includesStr pat (x # xs) = (prefix pat (x # xs) \<or> includesStr pat xs)"

text \<open>\<open>\d\<close> is an ASCII digit; \<open>digitsValue\<close> is the integer that a run of digits denotes.\<close>

definition isDigit :: "nat \<Rightarrow> bool" where
  "isDigit c = (48 \<le> c \<and> c \<le> 57)"

definition digitVal :: "nat \<Rightarrow> nat" where
  "digitVal c = c - 48"

definition digitsValue :: "units \<Rightarrow> nat" where
  "digitsValue ds = foldl (\<lambda>n c. 10 * n + digitVal c) 0 ds"

subsection \<open>Numbers\<close>

text \<open>
  A JavaScript number is a double. \<open>parseInt(ds, 10)\<close> on a run of digits is the double
  that the engine gives for the integer the digits denote: that integer itself below
  \<open>2^53\<close>, a neighbouring double above, an approximation that the engine may choose
  beyond 20 significant digits, and \<open>Infinity\<close> beyond the largest double. All of these are
  whole numbers or \<open>Infinity\<close>, and a parsed number is represented by its integer value,
  \<open>Infinity\<close> by any integer above the largest double; comparison, equality as a \<open>Map\<close> key
  and the sign of a difference are then those of the integers. What the engine does is a
  parameter: \<open>toNumber\<close> is its rounding and \<open>numberText\<close> its \<open>String(n)\<close>. Heights that the
  upstream metadata delivers and heights that a caller passes are integers.
\<close>

record Numbers =
  toNumber :: "nat \<Rightarrow> nat"
  numberText :: "nat \<Rightarrow> string"

definition parseInt :: "Numbers \<Rightarrow> units \<Rightarrow> nat" where
  "parseInt ng ds = toNumber ng (digitsValue ds)"

subsection \<open>The three attribute patterns\<close>

text \<open>
  \<open>line.match(re)\<close> without the global flag returns the leftmost match: the pattern is
  tried at every position from the left. Each pattern below is the match anchored at the
  start of its argument and returns the captured groups. The quantifiers are greedy and
  a shorter run never helps (the code unit after a shorter run is again a digit, or
  again not a quote), so the groups are maximal runs. Code unit 34 is the double quote,
  120 the letter \<open>x\<close>.
\<close>

fun firstMatch :: "('a list \<Rightarrow> 'b option) \<Rightarrow> 'a list \<Rightarrow> 'b option" where
  "firstMatch m [] = m []"
| "firstMatch m (x # xs) = (case m (x # xs) of Some r \<Rightarrow> Some r | None \<Rightarrow> firstMatch m xs)"

definition stripPrefix :: "'a list \<Rightarrow> 'a list \<Rightarrow> 'a list option" where
  "stripPrefix p s = (if prefix p s then Some (drop (length p) s) else None)"

text \<open>\<open>/CODECS="([^"]+)"/\<close>\<close>

definition codecsAt :: "units \<Rightarrow> units option" where
  "codecsAt s =
     (case stripPrefix (lit ''CODECS='' @ [34]) s of
        None \<Rightarrow> None
      | Some r \<Rightarrow>
          (let g = takeWhile (\<lambda>c. c \<noteq> 34) r; rest = dropWhile (\<lambda>c. c \<noteq> 34) r
           in if g \<noteq> [] \<and> rest \<noteq> [] then Some g else None))"

text \<open>\<open>/RESOLUTION=(\d+)x(\d+)/\<close>\<close>

definition resolutionAt :: "units \<Rightarrow> (units \<times> units) option" where
  "resolutionAt s =
     (case stripPrefix (lit ''RESOLUTION='') s of
        None \<Rightarrow> None
      | Some r \<Rightarrow>
          (let w = takeWhile isDigit r in
           if w = [] then None
           else (case dropWhile isDigit r of
                   [] \<Rightarrow> None
                 | c # r2 \<Rightarrow>
                     (let h = takeWhile isDigit r2 in
                      if c = 120 \<and> h \<noteq> [] then Some (w, h) else None))))"

text \<open>\<open>/BANDWIDTH=(\d+)/\<close>\<close>

definition bandwidthAt :: "units \<Rightarrow> units option" where
  "bandwidthAt s =
     (case stripPrefix (lit ''BANDWIDTH='') s of
        None \<Rightarrow> None
      | Some r \<Rightarrow> (let d = takeWhile isDigit r in if d = [] then None else Some d))"

definition isStreamInf :: "units \<Rightarrow> bool" where
  "isStreamInf l = prefix (lit ''#EXT-X-STREAM-INF:'') (trimUnits l)"

text \<open>\<open>!codecsMatch || codecsMatch[1].includes('avc1')\<close> on the trimmed line.\<close>

definition isH264 :: "units \<Rightarrow> bool" where
  "isH264 line =
     (case firstMatch codecsAt line of None \<Rightarrow> True | Some c \<Rightarrow> includesStr (lit ''avc1'') c)"

section \<open>HLS manifest processing\<close>

subsection \<open>\<open>parseHlsQualities\<close>\<close>

text \<open>
  One pass of the loop body up to the map update: the height and the bit rate of a line,
  or \<open>None\<close> where the body reaches a \<open>continue\<close>.
\<close>

definition streamInfo :: "Numbers \<Rightarrow> units \<Rightarrow> (nat \<times> nat) option" where
  "streamInfo ng l =
     (let line = trimUnits l in
      if \<not> prefix (lit ''#EXT-X-STREAM-INF:'') line then None
      else if \<not> isH264 line then None
      else (case firstMatch resolutionAt line of
              None \<Rightarrow> None
            | Some res \<Rightarrow>
                (case firstMatch bandwidthAt line of
                   None \<Rightarrow> None
                 | Some bw \<Rightarrow> Some (parseInt ng (snd res), parseInt ng bw))))"

definition bitrateOr0 :: "VideoQuality \<Rightarrow> nat" where
  "bitrateOr0 q = (case q_bitrate q of None \<Rightarrow> 0 | Some b \<Rightarrow> b)"

definition hlsQuality :: "Numbers \<Rightarrow> nat \<Rightarrow> nat \<Rightarrow> VideoQuality" where
  "hlsQuality ng h b =
     \<lparr>q_label = numberText ng h @ ''p'', q_height = int h, q_hasAudio = True,
      q_bitrate = Some b\<rparr>"

definition hlsStep ::
  "Numbers \<Rightarrow> units \<Rightarrow> (nat \<times> VideoQuality) list \<Rightarrow> (nat \<times> VideoQuality) list" where
  "hlsStep ng l m =
     (case streamInfo ng l of
        None \<Rightarrow> m
      | Some (h, b) \<Rightarrow>
          (case map_of m h of
             None \<Rightarrow> mapSet h (hlsQuality ng h b) m
           | Some existing \<Rightarrow>
               if bitrateOr0 existing < b then mapSet h (hlsQuality ng h b) m else m))"

definition hlsQualities :: "Numbers \<Rightarrow> units \<Rightarrow> VideoQuality list" where
  "hlsQualities ng t =
     sort_key q_height (map snd (fold (hlsStep ng) (splitOn 10 t) []))"

text \<open>
  The manifest is cached as soon as its text has arrived, before it is parsed. A failed
  fetch rejects and leaves the cache as it was.
\<close>

definition parseHlsQualities ::
  "Numbers \<Rightarrow> Upstream \<Rightarrow> string \<Rightarrow> string \<Rightarrow> State \<Rightarrow> (error + VideoQuality list) \<times> State" where
  "parseHlsQualities ng up manifestUrl cid st =
     (case fetchText up manifestUrl of
        Inl e \<Rightarrow> (Inl e, st)
      | Inr t \<Rightarrow>
          (Inr (hlsQualities ng t),
           st\<lparr>hlsManifestCache := Some \<lparr>hls_contentId = cid, hls_text = t, hlsUrl = manifestUrl\<rparr>\<rparr>))"

subsection \<open>\<open>getFilteredHlsUrl\<close>\<close>

text \<open>
  \<open>resMatch && resMatch[2] === String(height)\<close>: a comparison of strings, with the decimal
  digits of the requested height.
\<close>

definition matchesHeight :: "int \<Rightarrow> units \<Rightarrow> bool" where
  "matchesHeight h line =
     (case firstMatch resolutionAt line of
        None \<Rightarrow> False
      | Some res \<Rightarrow> snd res = lit (showInt h))"

text \<open>The test of both inner loops: \<open>next && !next.startsWith('#')\<close>.\<close>

definition isUriLine :: "units \<Rightarrow> bool" where
  "isUriLine l = (let next = trimUnits l in next \<noteq> [] \<and> \<not> prefix (lit ''#'') next)"

text \<open>
  The outer loop over the lines from index \<open>i\<close> on. A stream-info line consumes the lines
  up to and including the next URI line (\<open>i = j\<close>); where no URI line follows, only the
  stream-info line itself is consumed.
\<close>

function filterLines :: "int \<Rightarrow> units list \<Rightarrow> units list" where
  "filterLines h [] = []"
| "filterLines h (l # ls) =
     (if \<not> isStreamInf l then l # filterLines h ls
      else if isH264 (trimUnits l) \<and> matchesHeight h (trimUnits l) then
        (case dropWhile (\<lambda>x. \<not> isUriLine x) ls of
           [] \<Rightarrow> l # filterLines h ls
         | u # rest \<Rightarrow> l # u # filterLines h rest)
      else
        (case dropWhile (\<lambda>x. \<not> isUriLine x) ls of
           [] \<Rightarrow> filterLines h ls
         | u # rest \<Rightarrow> filterLines h rest))"
  by pat_completeness auto
termination
proof (relation "measure (\<lambda>(h, ls). length ls)")
  have shorter: "length rest < Suc (length ls)"
    if "dropWhile (\<lambda>x. \<not> isUriLine x) ls = u # rest" for ls :: "units list" and u rest
  proof -
    have "Suc (length rest) = length (dropWhile (\<lambda>x. \<not> isUriLine x) ls)"
      using that by simp
    also have "\<dots> \<le> length ls" by (rule length_dropWhile_le)
    finally show ?thesis by simp
  qed
  show "wf (measure (\<lambda>(h, ls). length ls))" by simp
  show "((h, ls), h, l # ls) \<in> measure (\<lambda>(h, ls). length ls)"
    for h :: int and l :: units and ls
    by simp
  show "((h, ls), h, l # ls) \<in> measure (\<lambda>(h, ls). length ls)"
    for h :: int and l :: units and ls
    by simp
  show "((h, rest), h, l # ls) \<in> measure (\<lambda>(h, ls). length ls)"
    if "dropWhile (\<lambda>x. \<not> isUriLine x) ls = u # rest"
    for h :: int and l :: units and ls u rest
    using shorter[OF that] by simp
  show "((h, ls), h, l # ls) \<in> measure (\<lambda>(h, ls). length ls)"
    for h :: int and l :: units and ls
    by simp
  show "((h, rest), h, l # ls) \<in> measure (\<lambda>(h, ls). length ls)"
    if "dropWhile (\<lambda>x. \<not> isUriLine x) ls = u # rest"
    for h :: int and l :: units and ls u rest
    using shorter[OF that] by simp
qed

definition getFilteredHlsUrl :: "Host \<Rightarrow> int \<Rightarrow> State \<Rightarrow> string option" where
  "getFilteredHlsUrl host h st =
     (case hlsManifestCache st of
        None \<Rightarrow> None
      | Some c \<Rightarrow>
          Some (writeCacheFile host (''hls_'' @ showInt h @ ''p.m3u8'')
                  (joinWith 10 (filterLines h (splitOn 10 (hls_text c))))))"

subsection \<open>Entries that pass the guards\<close>




section \<open>\<open>getVideoInfo\<close>\<close>

text \<open>
  The HLS URL of the iOS branch: the one of the streaming data, or else the one of the
  iOS basic-info request, whose failure is logged and ignored. The result is \<open>Some\<close> only
  for a truthy (non-empty) URL.
\<close>

definition truthy :: "string option \<Rightarrow> string option" where
  "truthy s = (case s of None \<Rightarrow> None | Some v \<Rightarrow> if v = [] then None else Some v)"

definition iosHlsUrl ::
  "Upstream \<Rightarrow> Innertube \<Rightarrow> string \<Rightarrow> InnertubeStreamingData \<Rightarrow> string option" where
  "iosHlsUrl up it cid sd =
     (case truthy (hls_manifest_url sd) of
        Some u \<Rightarrow> Some u
      | None \<Rightarrow>
          (case getBasicInfoIOS up it cid of
             Inl e \<Rightarrow> None
           | Inr u \<Rightarrow> truthy u))"

definition hlsInfo :: "string \<Rightarrow> VideoQuality list \<Rightarrow> VideoPlaybackInfo" where
  "hlsInfo u qs =
     \<lparr>url = u, isDash = False, isHLS = True, hasAudio = True, qualities = qs,
      defaultHeight = 0\<rparr>"

definition dashInfo :: "string \<Rightarrow> VideoPlaybackInfo" where
  "dashInfo u =
     \<lparr>url = u, isDash = True, isHLS = False, hasAudio = True, qualities = [],
      defaultHeight = 0\<rparr>"

text \<open>
  After the HLS attempt: on Android the DASH manifest is tried, and a failure of
  \<open>toDash\<close> falls through to the progressive ladder. The platform is one of the two, so
  the ladder is reached on iOS without an HLS URL and on Android without a DASH manifest.
\<close>

definition dashOrProgressive ::
  "Host \<Rightarrow> InnertubeVideoInfo \<Rightarrow> InnertubeStreamingData \<Rightarrow> VideoPlaybackInfo option" where
  "dashOrProgressive host i sd =
     (if platform host = android then
        (case toDash i of
           Inr manifest \<Rightarrow> Some (dashInfo (writeCacheFile host ''dash_manifest.mpd'' manifest))
         | Inl e \<Rightarrow> progressiveFallback sd)
      else progressiveFallback sd)"

definition getVideoInfo ::
  "Numbers \<Rightarrow> Host \<Rightarrow> Upstream \<Rightarrow> string \<Rightarrow> State \<Rightarrow> VideoPlaybackInfo option \<times> State" where
  "getVideoInfo ng host up cid st =
     (case getCachedVideoInfo up cid st of
        (Inl e, st1) \<Rightarrow> (None, st1)
      | (Inr (i, it), st1) \<Rightarrow>
          (case streaming_data i of
             None \<Rightarrow> (None, st1)
           | Some sd \<Rightarrow>
               (case (if platform host = ios then iosHlsUrl up it cid sd else None) of
                  Some u \<Rightarrow>
                    (case parseHlsQualities ng up u cid st1 of
                       (Inl e, st2) \<Rightarrow> (Some (hlsInfo u []), st2)
                     | (Inr qs, st2) \<Rightarrow> (Some (hlsInfo u qs), st2))
                | None \<Rightarrow> (dashOrProgressive host i sd, st1))))"

subsection \<open>Master playlists as blocks\<close>

text \<open>
  The shape of a master playlist that the specification speaks of: a sequence of plain
  lines (tags, headers, anything that is no stream-info line) and of variants, each a
  stream-info line directly followed by its URI line. \<open>keepBlock\<close> is the specification's
  filter: every plain line, and the variants that are codec-compatible at the height.
\<close>

datatype block = Plain units | Variant units units

fun renderBlock :: "block \<Rightarrow> units list" where
  "renderBlock (Plain l) = [l]"
| "renderBlock (Variant s u) = [s, u]"

definition render :: "block list \<Rightarrow> units list" where
  "render bs = concat (map renderBlock bs)"

fun wellFormedBlock :: "block \<Rightarrow> bool" where
  "wellFormedBlock (Plain l) = (\<not> isStreamInf l)"
| "wellFormedBlock (Variant s u) = (isStreamInf s \<and> isUriLine u)"

fun variantAt :: "int \<Rightarrow> block \<Rightarrow> bool" where
  "variantAt h (Plain l) = False"
| "variantAt h (Variant s u) = (isH264 (trimUnits s) \<and> matchesHeight h (trimUnits s))"

fun isPlain :: "block \<Rightarrow> bool" where
  "isPlain (Plain l) = True"
| "isPlain (Variant s u) = False"

fun keepBlock :: "int \<Rightarrow> block \<Rightarrow> bool" where
  "keepBlock h (Plain l) = True"
| "keepBlock h (Variant s u) = (isH264 (trimUnits s) \<and> matchesHeight h (trimUnits s))"

section \<open>Client pool\<close>

text \<open>
  \<open>clientsMap\<close> and \<open>pendingMap\<close> of the closure, keyed by client type (the enumeration of
  the upstream library, a type parameter here). A promise made by \<open>getInnertube\<close> is a
  cell of a store; \<open>pendingMap\<close> holds references into it. The store is what every holder
  of a reference observes when it awaits.
\<close>

datatype PromiseState = Pending | Fulfilled Innertube | Rejected error

datatype Promise = Resolved Innertube | Ref nat

record 't Pool =
  clientsMap :: "'t \<rightharpoonup> Innertube"
  pendingMap :: "'t \<rightharpoonup> nat"
  promises :: "('t \<times> PromiseState) list"

definition emptyPool :: "'t Pool" where
  "emptyPool = \<lparr>clientsMap = Map.empty, pendingMap = Map.empty, promises = []\<rparr>"

text \<open>
  The synchronous part of \<open>getInnertube\<close>: it returns a promise at once. A fresh creation
  appends a pending cell for \<open>Innertube.create(...).then(...)\<close> and stores its reference in
  \<open>pendingMap\<close>.
\<close>

definition startCreate :: "'t \<Rightarrow> 't Pool \<Rightarrow> Promise \<times> 't Pool" where
  "startCreate ty p =
     (let pid = length (promises p) in
      (Ref pid, p\<lparr>pendingMap := (pendingMap p)(ty \<mapsto> pid),
                 promises := promises p @ [(ty, Pending)]\<rparr>))"

definition getInnertube :: "'t \<Rightarrow> bool \<Rightarrow> 't Pool \<Rightarrow> Promise \<times> 't Pool" where
  "getInnertube ty forceRecreate p =
     (case (if forceRecreate then None else clientsMap p ty) of
        Some instance \<Rightarrow> (Resolved instance, p)
      | None \<Rightarrow>
          (case (if forceRecreate then None else pendingMap p ty) of
             Some pid \<Rightarrow> (Ref pid, p)
           | None \<Rightarrow> startCreate ty p))"

text \<open>
  The creation behind promise \<open>pid\<close> settles. The only handler attached is the
  fulfilment handler of \<open>.then\<close>: on success it records the instance, deletes
  \<open>pendingMap[type]\<close> and fulfils the promise; on failure no code of the pool runs and the
  promise is rejected with the same error.
\<close>

definition settle :: "nat \<Rightarrow> error + Innertube \<Rightarrow> 't Pool \<Rightarrow> 't Pool" where
  "settle pid result p =
     (if pid < length (promises p) \<and> snd (promises p ! pid) = Pending then
        (let ty = fst (promises p ! pid) in
         case result of
           Inr instance \<Rightarrow>
             p\<lparr>clientsMap := (clientsMap p)(ty \<mapsto> instance),
               pendingMap := (pendingMap p)(ty := None),
               promises := (promises p)[pid := (ty, Fulfilled instance)]\<rparr>
         | Inl e \<Rightarrow> p\<lparr>promises := (promises p)[pid := (ty, Rejected e)]\<rparr>)
      else p)"

text \<open>What a caller awaiting the returned promise observes.\<close>

definition await :: "Promise \<Rightarrow> 't Pool \<Rightarrow> PromiseState" where
  "await r p =
     (case r of
        Resolved instance \<Rightarrow> Fulfilled instance
      | Ref pid \<Rightarrow> if pid < length (promises p) then snd (promises p ! pid) else Pending)"

definition dispose :: "'t Pool \<Rightarrow> 't Pool" where
  "dispose p = p\<lparr>clientsMap := Map.empty, pendingMap := Map.empty\<rparr>"

section \<open>Feed and collection entries\<close>

subsection \<open>Response fragments (\<open>src/types.ts\<close>)\<close>

record InnertubeTextRun =
  run_text :: string
  run_browseId :: "string option"

text \<open>\<open>text_toString\<close> is what \<open>toString?.()\<close> yields: \<open>None\<close> where the method is absent.\<close>

record InnertubeText =
  text_text :: "string option"
  text_runs :: "InnertubeTextRun list option"
  text_toString :: "string option"



text \<open>
  One record serves every \<open>payload\<close> object; where the declared payload has a \<open>videoId\<close>
  only (\<open>overlay.content.payload\<close>, \<open>on_tap.payload\<close>) the code never reads the browse id.
\<close>

record Payload =
  browseId :: "string option"
  videoId :: "string option"

record InnertubeEndpoint =
  payload :: "Payload option"

record OverlayContent =
  oc_endpoint :: "InnertubeEndpoint option"
  oc_payload :: "Payload option"

record Overlay =
  content :: "OverlayContent option"


text \<open>
  An element of a response array as it arrives at run time: the arrays are cast from
  untyped data, and a \<open>null\<close> or \<open>undefined\<close> element makes the first property read of
  the extraction throw a \<open>TypeError\<close>.
\<close>

datatype 'a entry = Null | Obj 'a

subsection \<open>Optional chaining\<close>

text \<open>\<open>a ?? b\<close> on optional values, and \<open>a ?? d\<close> with a default.\<close>

definition orElse :: "'a option \<Rightarrow> 'a option \<Rightarrow> 'a option" where
  "orElse a b = (case a of None \<Rightarrow> b | Some v \<Rightarrow> Some v)"

definition orDefault :: "'a option \<Rightarrow> 'a \<Rightarrow> 'a" where
  "orDefault a d = (case a of None \<Rightarrow> d | Some v \<Rightarrow> v)"

text \<open>\<open>a || b\<close> on strings: the empty string is falsy.\<close>

definition orStr :: "string \<Rightarrow> string \<Rightarrow> string" where
  "orStr a b = (if a = [] then b else a)"







subsection \<open>\<open>parseMusicItem\<close>\<close>

datatype FeedItemType =
  playlist | album | song | artist | movie | series | episode | category | unknown










subsection \<open>\<open>getHomeFeed\<close>\<close>



definition SOURCE_ID :: string where
  "SOURCE_ID = ''youtube''"





section \<open>Collections\<close>

datatype ContentType = track | movieContent | seriesContent | episodeContent

record MediaItem =
  mi_id :: string
  mi_sourceId :: string
  mi_type :: ContentType
  mi_title :: string
  mi_artist :: string
  mi_artwork :: string
  mi_duration :: int
  mi_contentId :: string

definition mkTrack :: "string \<Rightarrow> string \<Rightarrow> string \<Rightarrow> string \<Rightarrow> int \<Rightarrow> MediaItem" where
  "mkTrack vid title artistName artwork duration =
     \<lparr>mi_id = vid, mi_sourceId = SOURCE_ID, mi_type = track, mi_title = title,
      mi_artist = artistName, mi_artwork = artwork, mi_duration = duration, mi_contentId = vid\<rparr>"

subsection \<open>\<open>parseMusicListItem\<close>\<close>









subsection \<open>\<open>getCollection\<close> and \<open>fetchAlbum\<close>\<close>
















section \<open>Suggestions\<close>

subsection \<open>Watch-next entries\<close>

text \<open>
  \<open>LockupViewModel\<close> and \<open>CompactVideoRenderer\<close>, each nested optional path reduced to the
  value at its end: a metadata row is the list of the \<open>text.content\<close> of its parts, an
  image source list holds the \<open>url\<close> of each source, a run list the \<open>text\<close> of each run.
\<close>

record LockupViewModel =
  lv_contentId :: "string option"
  lv_title_content :: "string option"
  lv_metadataRows :: "string option list option list option"
  lv_collection_sources :: "string option list option"
  lv_thumbnail_sources :: "string option list option"
  lv_decorated_sources :: "string option list option"

record CompactVideoRenderer =
  cv_videoId :: "string option"
  cv_title_simpleText :: "string option"
  cv_title_runs :: "string option list option"
  cv_longBylineText_runs :: "string option list option"
  cv_shortBylineText_runs :: "string option list option"
  cv_thumbnails :: "string option list option"
  cv_lengthText_simpleText :: "string option"

record NextEndpointResult =
  lockupViewModel :: "LockupViewModel option"
  compactVideoRenderer :: "CompactVideoRenderer option"

text \<open>
  The artist is the first truthy part text met while the artist is still \<open>'Unknown'\<close>.
\<close>

definition artistStep :: "string \<Rightarrow> string option \<Rightarrow> string" where
  "artistStep a part =
     (case truthy part of None \<Rightarrow> a | Some c \<Rightarrow> if a = ''Unknown'' then c else a)"

definition lockupArtist :: "LockupViewModel \<Rightarrow> string" where
  "lockupArtist lockup =
     (case lv_metadataRows lockup of
        None \<Rightarrow> ''Unknown''
      | Some rows \<Rightarrow> foldl (\<lambda>a row. foldl artistStep a (orEmpty row)) ''Unknown'' rows)"

definition lastUrl :: "string option list option \<Rightarrow> string" where
  "lastUrl sources =
     (case sources of
        None \<Rightarrow> []
      | Some [] \<Rightarrow> []
      | Some (s # ss) \<Rightarrow> orDefault (last (s # ss)) [])"

definition lockupArtwork :: "LockupViewModel \<Rightarrow> string \<Rightarrow> string" where
  "lockupArtwork lockup vid =
     orStr (lastUrl (orElse (lv_collection_sources lockup)
                       (orElse (lv_thumbnail_sources lockup) (lv_decorated_sources lockup))))
       (''https://i.ytimg.com/vi/'' @ vid @ ''/hqdefault.jpg'')"

definition parseLockupViewModel :: "LockupViewModel \<Rightarrow> MediaItem option" where
  "parseLockupViewModel lockup =
     (case truthy (lv_contentId lockup) of
        None \<Rightarrow> None
      | Some vid \<Rightarrow>
          Some (mkTrack vid (orDefault (lv_title_content lockup) ''Unknown'') (lockupArtist lockup)
                  (lockupArtwork lockup vid) 0))"

text \<open>\<open>runs?.[0]?.text\<close> and \<open>getBestThumbnail\<close>.\<close>

definition firstText :: "string option list option \<Rightarrow> string option" where
  "firstText runs =
     (case runs of None \<Rightarrow> None | Some [] \<Rightarrow> None | Some (r # rs) \<Rightarrow> r)"

definition getBestThumbnail :: "string option list option \<Rightarrow> string" where
  "getBestThumbnail thumbnails = lastUrl thumbnails"

text \<open>
  \<open>parseDuration\<close> turns \<open>H:MM:SS\<close> into seconds with floating-point \<open>Number\<close>; it cannot
  throw on a string and is the parameter \<open>dur\<close>.
\<close>

definition compactTrack :: "(string option \<Rightarrow> int) \<Rightarrow> CompactVideoRenderer \<Rightarrow> string \<Rightarrow> MediaItem" where
  "compactTrack dur renderer vid =
     mkTrack vid
       (orDefault (orElse (cv_title_simpleText renderer) (firstText (cv_title_runs renderer))) ''Unknown'')
       (orDefault (orElse (firstText (cv_longBylineText_runs renderer))
                     (firstText (cv_shortBylineText_runs renderer))) ''Unknown'')
       (getBestThumbnail (cv_thumbnails renderer))
       (dur (cv_lengthText_simpleText renderer))"

text \<open>
  The body of the \<open>try\<close> inside the loop of strategy 1: the track it pushes, if any. The
  lockup branch compares the id with the seed; the compact-renderer branch pushes
  whatever has a truthy \<open>videoId\<close>.
\<close>

definition nextTrack ::
  "(string option \<Rightarrow> int) \<Rightarrow> string \<Rightarrow> NextEndpointResult entry \<Rightarrow> error + MediaItem option" where
  "nextTrack dur seed e =
     (case e of
        Null \<Rightarrow> Inl TypeError
      | Obj item \<Rightarrow>
          (case lockupViewModel item of
             Some lockup \<Rightarrow>
               (case parseLockupViewModel lockup of
                  None \<Rightarrow> Inr None
                | Some t \<Rightarrow> if mi_id t \<noteq> seed then Inr (Some t) else Inr None)
           | None \<Rightarrow>
               (case compactVideoRenderer item of
                  None \<Rightarrow> Inr None
                | Some renderer \<Rightarrow>
                    (case truthy (cv_videoId renderer) of
                       None \<Rightarrow> Inr None
                     | Some vid \<Rightarrow> Inr (Some (compactTrack dur renderer vid))))))"

fun nextTracks ::
  "(string option \<Rightarrow> int) \<Rightarrow> string \<Rightarrow> NextEndpointResult entry list \<Rightarrow> MediaItem list" where
  "nextTracks dur seed [] = []"
| "nextTracks dur seed (e # es) =
     (case nextTrack dur seed e of
        Inl err \<Rightarrow> nextTracks dur seed es
      | Inr None \<Rightarrow> nextTracks dur seed es
      | Inr (Some t) \<Rightarrow> t # nextTracks dur seed es)"

subsection \<open>Search results\<close>

datatype TitleField = TitleString string | TitleText InnertubeText

datatype AuthorField = AuthorString string | AuthorObject "string option"

datatype DurationField = DurationNumber int | DurationObject "int option"

record InnertubeVideoResult =
  vr_id :: "string option"
  vr_video_id :: "string option"
  vr_title :: "TitleField option"
  vr_author :: "AuthorField option"
  vr_best_thumbnail_url :: "string option"
  vr_thumbnails :: "string option list option"
  vr_duration :: "DurationField option"

record SearchResults =
  sr_results :: "InnertubeVideoResult entry list option"
  sr_videos :: "InnertubeVideoResult entry list option"

definition resultId :: "InnertubeVideoResult \<Rightarrow> string option" where
  "resultId v = orElse (vr_id v) (vr_video_id v)"

definition resultTitle :: "InnertubeVideoResult \<Rightarrow> string" where
  "resultTitle v =
     (case vr_title v of
        Some (TitleString s) \<Rightarrow> s
      | Some (TitleText t) \<Rightarrow> orDefault (text_text t) ''Unknown''
      | None \<Rightarrow> ''Unknown'')"

definition resultArtist :: "InnertubeVideoResult \<Rightarrow> string" where
  "resultArtist v =
     (case vr_author v of
        Some (AuthorString s) \<Rightarrow> s
      | Some (AuthorObject n) \<Rightarrow> orDefault n ''Unknown''
      | None \<Rightarrow> ''Unknown'')"

definition resultDuration :: "InnertubeVideoResult \<Rightarrow> int" where
  "resultDuration v =
     (case vr_duration v of
        Some (DurationNumber n) \<Rightarrow> n
      | Some (DurationObject s) \<Rightarrow> orDefault s 0
      | None \<Rightarrow> 0)"

definition resultTrack :: "InnertubeVideoResult \<Rightarrow> MediaItem option" where
  "resultTrack v =
     (case truthy (resultId v) of
        None \<Rightarrow> None
      | Some vid \<Rightarrow>
          Some (mkTrack vid (resultTitle v) (resultArtist v)
                  (orDefault (orElse (vr_best_thumbnail_url v) (firstText (vr_thumbnails v))) [])
                  (resultDuration v)))"

definition notSeed :: "string \<Rightarrow> InnertubeVideoResult \<Rightarrow> bool" where
  "notSeed seed v = (case truthy (resultId v) of None \<Rightarrow> False | Some vid \<Rightarrow> vid \<noteq> seed)"

text \<open>
  \<open>videos.filter(...)\<close> of the fallback: the callback reads \<open>v.id\<close> with no guard, so a
  \<open>null\<close> element throws and the exception leaves the whole chain.
\<close>

fun keepResults :: "string \<Rightarrow> InnertubeVideoResult entry list \<Rightarrow> error + InnertubeVideoResult list" where
  "keepResults seed [] = Inr []"
| "keepResults seed (Null # vs) = Inl TypeError"
| "keepResults seed (Obj v # vs) =
     (case keepResults seed vs of
        Inl e \<Rightarrow> Inl e
      | Inr kept \<Rightarrow> Inr (if notSeed seed v then v # kept else kept))"

subsection \<open>\<open>getSuggestions\<close>\<close>

text \<open>
  What the two strategies get from outside: the \<open>results\<close> array found under the
  watch-next response (\<open>Inl\<close>: the session or the request failed; \<open>None\<close>: no array at
  that path), the session of the fallback, the basic info and the search.
\<close>

record SuggestUpstream =
  nextResults :: "string \<Rightarrow> error + NextEndpointResult entry list option"
  searchSession :: "error + Innertube"
  getBasicInfo :: "string \<Rightarrow> error + BasicInfo option"
  search :: "string \<Rightarrow> error + SearchResults"

definition searchQuery :: "SuggestUpstream \<Rightarrow> string \<Rightarrow> string" where
  "searchQuery up seed =
     (case getBasicInfo up seed of
        Inl e \<Rightarrow> seed
      | Inr None \<Rightarrow> seed
      | Inr (Some bi) \<Rightarrow>
          (case truthy (bi_title bi) of
             None \<Rightarrow> seed
           | Some t \<Rightarrow>
               trim (t @ '' '' @ orDefault (orElse (bi_channel_name bi) (bi_author bi)) [])))"

definition searchFallback :: "SuggestUpstream \<Rightarrow> string \<Rightarrow> MediaItem list" where
  "searchFallback up seed =
     (case searchSession up of
        Inl e \<Rightarrow> []
      | Inr it \<Rightarrow>
          (case search up (searchQuery up seed) of
             Inl e \<Rightarrow> []
           | Inr sr \<Rightarrow>
               (case keepResults seed (orDefault (orElse (sr_results sr) (sr_videos sr)) []) of
                  Inl e \<Rightarrow> []
                | Inr kept \<Rightarrow> List.map_filter resultTrack (take 20 kept))))"

definition getSuggestions :: "(string option \<Rightarrow> int) \<Rightarrow> SuggestUpstream \<Rightarrow> string \<Rightarrow> MediaItem list" where
  "getSuggestions dur up seed =
     (case nextResults up seed of
        Inr (Some results) \<Rightarrow>
          (let tracks = nextTracks dur seed results in
           if tracks \<noteq> [] then take 20 tracks else searchFallback up seed)
      | _ \<Rightarrow> searchFallback up seed)"

section \<open>Per-entry extraction, as the specification words it\<close>


section \<open>Example inputs\<close>

text \<open>Concrete inputs at which the theorems below are instantiated and evaluated.\<close>

definition exFormat :: "bool \<Rightarrow> int \<Rightarrow> string \<Rightarrow> InnertubeFormat" where
  "exFormat a h u =
     \<lparr>has_video = True, has_audio = a, height = Some h, mime_type = Some ''video/mp4'',
      quality_label = None, content_length = None, decipher = Inr u\<rparr>"

definition exStreamingData :: InnertubeStreamingData where
  "exStreamingData =
     \<lparr>hls_manifest_url = None,
      formats = Some [exFormat True 360 ''m360'', exFormat True 720 ''m720''],
      adaptive_formats = Some [exFormat False 720 ''a720'', exFormat False 1080 ''a1080'']\<rparr>"

definition exInfo :: InnertubeVideoInfo where
  "exInfo =
     \<lparr>streaming_data = Some exStreamingData, basic_info = None,
      toDash = Inl (Failure ''no dash'')\<rparr>"

definition exUpstream :: Upstream where
  "exUpstream =
     \<lparr>awaitInnertube = Inr 0, getShortsVideoInfo = (\<lambda>it cid. Inr exInfo),
      getBasicInfoIOS = (\<lambda>it cid. Inl (Failure ''no ios'')),
      fetchText = (\<lambda>u. Inl (Failure ''offline''))\<rparr>"

definition emptyState :: State where
  "emptyState = \<lparr>videoInfoCache = None, hlsManifestCache = None, metadataFetches = []\<rparr>"

definition cachedState :: State where
  "cachedState =
     \<lparr>videoInfoCache = Some \<lparr>contentId = ''v'', info = exInfo, innertube = 0\<rparr>,
      hlsManifestCache = None, metadataFetches = [''v'']\<rparr>"

definition offlineUpstream :: Upstream where
  "offlineUpstream =
     \<lparr>awaitInnertube = Inl (Failure ''offline''),
      getShortsVideoInfo = (\<lambda>it cid. Inl (Failure ''offline'')),
      getBasicInfoIOS = (\<lambda>it cid. Inl (Failure ''offline'')),
      fetchText = (\<lambda>u. Inl (Failure ''offline''))\<rparr>"

text \<open>An upstream with a session whose metadata request fails, and the state it leaves.\<close>

definition failingUpstream :: Upstream where
  "failingUpstream =
     \<lparr>awaitInnertube = Inr 0,
      getShortsVideoInfo = (\<lambda>it cid. Inl (Failure ''unavailable'')),
      getBasicInfoIOS = (\<lambda>it cid. Inl (Failure ''unavailable'')),
      fetchText = (\<lambda>u. Inl (Failure ''unavailable''))\<rparr>"

definition failedState :: State where
  "failedState =
     \<lparr>videoInfoCache = Some \<lparr>contentId = ''v'', info = exInfo, innertube = 0\<rparr>,
      hlsManifestCache = None, metadataFetches = [''v'', ''w'']\<rparr>"

definition supersededState :: State where
  "supersededState =
     \<lparr>videoInfoCache = Some \<lparr>contentId = ''w'', info = exInfo, innertube = 0\<rparr>,
      hlsManifestCache = None, metadataFetches = [''v'', ''w'']\<rparr>"

definition compactEntry :: "string \<Rightarrow> NextEndpointResult entry" where
  "compactEntry v =
     Obj \<lparr>lockupViewModel = None,
          compactVideoRenderer =
            Some \<lparr>cv_videoId = Some v, cv_title_simpleText = Some ''Title'',
                  cv_title_runs = None, cv_longBylineText_runs = None,
                  cv_shortBylineText_runs = None, cv_thumbnails = None,
                  cv_lengthText_simpleText = None\<rparr>\<rparr>"

definition seedUpstream :: SuggestUpstream where
  "seedUpstream =
     \<lparr>nextResults = (\<lambda>s. Inr (Some [compactEntry ''dQw4w9WgXcQ'', compactEntry ''abcdefghijk''])),
      searchSession = Inl (Failure ''offline''),
      getBasicInfo = (\<lambda>s. Inl (Failure ''offline'')),
      search = (\<lambda>s. Inl (Failure ''offline''))\<rparr>"


















definition exLadder :: VideoPlaybackInfo where
  "exLadder =
     \<lparr>url = ''m720'', isDash = False, isHLS = False, hasAudio = True,
      qualities =
        [\<lparr>q_label = ''360p'', q_height = 360, q_hasAudio = True, q_bitrate = None\<rparr>,
         \<lparr>q_label = ''720p'', q_height = 720, q_hasAudio = True, q_bitrate = None\<rparr>,
         \<lparr>q_label = ''1080p'', q_height = 1080, q_hasAudio = False, q_bitrate = None\<rparr>],
      defaultHeight = 720\<rparr>"

definition farStreamingData :: InnertubeStreamingData where
  "farStreamingData =
     \<lparr>hls_manifest_url = None, formats = Some [exFormat True 480 ''m480''],
      adaptive_formats = Some [exFormat False 1080 ''a1080'']\<rparr>"

definition farLadder :: VideoPlaybackInfo where
  "farLadder =
     \<lparr>url = ''m480'', isDash = False, isHLS = False, hasAudio = True,
      qualities =
        [\<lparr>q_label = ''480p'', q_height = 480, q_hasAudio = True, q_bitrate = None\<rparr>,
         \<lparr>q_label = ''1080p'', q_height = 1080, q_hasAudio = False, q_bitrate = None\<rparr>],
      defaultHeight = 480\<rparr>"

definition noHeightStreamingData :: InnertubeStreamingData where
  "noHeightStreamingData =
     \<lparr>hls_manifest_url = None, formats = Some [exFormat True 0 ''m0''],
      adaptive_formats =
        Some [(exFormat False 0 ''a0'')\<lparr>height := None\<rparr>]\<rparr>"

definition androidHost :: Host where
  "androidHost = \<lparr>platform = android, writeCacheFile = (\<lambda>name content. ''file:///cache/'' @ name)\<rparr>"

definition avcLine :: "string \<Rightarrow> string \<Rightarrow> units" where
  "avcLine bw res =
     lit (''#EXT-X-STREAM-INF:BANDWIDTH='' @ bw @ '',CODECS='' @ [CHR 0x22] @ ''avc1.4d401e,mp4a.40.2''
       @ [CHR 0x22] @ '',RESOLUTION='' @ res)"

definition vp9Line :: "string \<Rightarrow> string \<Rightarrow> units" where
  "vp9Line bw res =
     lit (''#EXT-X-STREAM-INF:BANDWIDTH='' @ bw @ '',CODECS='' @ [CHR 0x22] @ ''vp09.00.31.08,mp4a.40.2''
       @ [CHR 0x22] @ '',RESOLUTION='' @ res)"

definition exManifestLines :: "units list" where
  "exManifestLines =
     [lit ''#EXTM3U'',
      avcLine ''1000'' ''640x360'', lit ''http://a/360'',
      avcLine ''2000'' ''640x360'', lit ''http://a/360b'',
      vp9Line ''3000'' ''1280x720'', lit ''http://a/720'']"

definition exManifest :: units where
  "exManifest = joinWith 10 exManifestLines"

text \<open>
  The numbers of an engine on integers below \<open>2^53\<close>, where every integer is a double and
  prints as its decimal digits; the examples stay below.
\<close>

definition exNumbers :: Numbers where
  "exNumbers = \<lparr>toNumber = (\<lambda>n. n), numberText = showNat\<rparr>"

definition exHlsUpstream :: Upstream where
  "exHlsUpstream =
     \<lparr>awaitInnertube = Inr 0, getShortsVideoInfo = (\<lambda>it cid. Inr exInfo),
      getBasicInfoIOS = (\<lambda>it cid. Inr (Some ''http://m/master.m3u8'')),
      fetchText = (\<lambda>u. Inr exManifest)\<rparr>"

text \<open>A host whose file URI spells out the content written, for content below 256.\<close>

definition echoHost :: Host where
  "echoHost = \<lparr>platform = ios, writeCacheFile = (\<lambda>name content. map char_of content)\<rparr>"

definition exHlsState :: State where
  "exHlsState =
     \<lparr>videoInfoCache = None,
      hlsManifestCache =
        Some \<lparr>hls_contentId = ''v'', hls_text = exManifest, hlsUrl = ''http://m/master.m3u8''\<rparr>,
      metadataFetches = []\<rparr>"

definition exBlocks :: "block list" where
  "exBlocks =
     [Plain (lit ''#EXTM3U''),
      Variant (avcLine ''1000'' ''640x360'') (lit ''http://a/360''),
      Variant (avcLine ''2000'' ''640x360'') (lit ''http://a/360b''),
      Variant (vp9Line ''3000'' ''1280x720'') (lit ''http://a/720'')]"

section \<open>Auxiliary facts\<close>

lemma find_SomeD: "find P xs = Some x \<Longrightarrow> x \<in> set xs \<and> P x"
  by (induction xs) (auto split: if_splits)

lemma dropWhile_shorter:
  "dropWhile P xs = y # ys \<Longrightarrow> length ys < Suc (length xs)"
proof -
  assume "dropWhile P xs = y # ys"
  then have "Suc (length ys) = length (dropWhile P xs)" by simp
  also have "\<dots> \<le> length xs" by (rule length_dropWhile_le)
  finally show ?thesis by simp
qed

lemma find_NoneD: "find P xs = None \<Longrightarrow> x \<in> set xs \<Longrightarrow> \<not> P x"
  by (induction xs) (auto split: if_splits)

lemma ex_getCachedVideoInfo:
  "getCachedVideoInfo exUpstream ''v'' emptyState = (Inr (exInfo, 0), cachedState)"
  by (simp add: exUpstream_def emptyState_def cachedState_def getCachedVideoInfo_def cacheHit_def)

lemma char_of_lit: "map char_of (lit s) = s"
  by (simp add: lit_def comp_def)

subsection \<open>Suggestions\<close>

lemma keepResults_notSeed:
  "keepResults seed vs = Inr kept \<Longrightarrow> v \<in> set kept \<Longrightarrow> notSeed seed v"
proof (induction vs arbitrary: kept)
  case Nil
  then show ?case by simp
next
  case (Cons e vs)
  show ?case
  proof (cases e)
    case Null
    with Cons.prems show ?thesis by simp
  next
    case (Obj w)
    with Cons.prems obtain k where k: "keepResults seed vs = Inr k"
      and kept: "kept = (if notSeed seed w then w # k else k)"
      by (auto split: sum.splits)
    from Cons.prems(2) kept Cons.IH[OF k] show ?thesis
      by (auto split: if_splits)
  qed
qed

lemma searchFallback_length: "length (searchFallback up seed) \<le> 20"
proof -
  have "length (List.map_filter f (take 20 xs)) \<le> 20" for f :: "InnertubeVideoResult \<Rightarrow> MediaItem option" and xs
    by (simp add: map_filter_def order_trans[OF length_filter_le])
  then show ?thesis
    by (auto simp: searchFallback_def Let_def split: sum.splits)
qed

lemma getSuggestions_length: "length (getSuggestions dur up seed) \<le> 20"
  using searchFallback_length[of up seed]
  by (auto simp: getSuggestions_def Let_def split: sum.splits option.splits)

lemma searchFallback_excludes_seed:
  assumes "t \<in> set (searchFallback up seed)"
  shows "mi_id t \<noteq> seed"
proof (cases "searchSession up")
  case (Inl e)
  with assms show ?thesis by (simp add: searchFallback_def)
next
  case it: (Inr it)
  show ?thesis
  proof (cases "search up (searchQuery up seed)")
    case (Inl e)
    with assms it show ?thesis by (simp add: searchFallback_def)
  next
    case sr: (Inr sr)
    show ?thesis
    proof (cases "keepResults seed (orDefault (orElse (sr_results sr) (sr_videos sr)) [])")
      case (Inl e)
      with assms it sr show ?thesis by (simp add: searchFallback_def)
    next
      case k: (Inr kept)
      from assms it sr k obtain v where v: "v \<in> set (take 20 kept)" and t: "resultTrack v = Some t"
        by (auto simp: searchFallback_def map_filter_def)
      from v have "v \<in> set kept" by (rule in_set_takeD)
      from keepResults_notSeed[OF k this] t show ?thesis
        by (auto simp: resultTrack_def notSeed_def mkTrack_def Let_def split: option.splits)
    qed
  qed
qed

lemma nextTrack_lockup_excludes_seed:
  assumes "nextTrack dur seed (Obj item) = Inr (Some t)" and "lockupViewModel item = Some lockup"
  shows "mi_id t \<noteq> seed"
  using assms by (auto simp: nextTrack_def split: option.splits if_splits)

text \<open>
  C1, at the failing input: the watch-next results hold two compact video renderers, the
  second with the seed's own \<open>videoId\<close>. Strategy 1 returns both, the seed included: the
  compact-renderer branch pushes without the comparison that the lockup branch makes.
\<close>

theorem getSuggestions_compact_keeps_seed:
  "map mi_id (getSuggestions (\<lambda>s. 0) seedUpstream ''abcdefghijk'') =
     [''dQw4w9WgXcQ'', ''abcdefghijk'']"
  by (simp add: getSuggestions_def seedUpstream_def compactEntry_def nextTrack_def truthy_def
      compactTrack_def mkTrack_def)

subsection \<open>Client pool\<close>

lemma getInnertube_fresh:
  assumes "clientsMap p ty = None" and "pendingMap p ty = None"
  shows "getInnertube ty False p = startCreate ty p"
  using assms by (simp add: getInnertube_def)

lemma settle_fulfilled:
  assumes "clientsMap p ty = None" and "pendingMap p ty = None"
    and "getInnertube ty False p = (r, p1)"
  shows "pendingMap (settle (length (promises p)) (Inr s) p1) ty = None \<and>
         clientsMap (settle (length (promises p)) (Inr s) p1) ty = Some s \<and>
         await r (settle (length (promises p)) (Inr s) p1) = Fulfilled s"
  using assms
  by (auto simp: getInnertube_def startCreate_def settle_def await_def nth_append Let_def)

lemma settle_rejected:
  assumes "clientsMap p ty = None" and "pendingMap p ty = None"
    and "getInnertube ty False p = (r, p1)"
  shows "pendingMap (settle (length (promises p)) (Inl e) p1) ty = Some (length (promises p)) \<and>
         await r (settle (length (promises p)) (Inl e) p1) = Rejected e \<and>
         getInnertube ty False (settle (length (promises p)) (Inl e) p1) =
           (r, settle (length (promises p)) (Inl e) p1)"
  using assms
  by (auto simp: getInnertube_def startCreate_def settle_def await_def nth_append Let_def)

text \<open>
  C2, at the failing input: on the empty pool, \<open>getInnertube('MWEB')\<close> starts a creation
  (promise 0) and the creation is rejected. The rejection reaches the awaiter, but
  \<open>pendingMap['MWEB']\<close> still refers to promise 0, so the next \<open>getInnertube('MWEB')\<close>
  returns the same rejected promise and starts no creation. On success the session is
  recorded and the marker is deleted.
\<close>

theorem getInnertube_rejected_marker_stays:
  "(let (r1, p1) = getInnertube ''MWEB'' False emptyPool;
        p2 = settle 0 (Inl (Failure ''network'')) p1;
        (r2, p3) = getInnertube ''MWEB'' False p2
    in r1 = Ref 0 \<and> await r1 p2 = Rejected (Failure ''network'') \<and>
       pendingMap p2 ''MWEB'' = Some 0 \<and> clientsMap p2 ''MWEB'' = None \<and>
       r2 = Ref 0 \<and> p3 = p2 \<and> length (promises p3) = 1 \<and>
       await r2 p3 = Rejected (Failure ''network''))
   \<and> (let (r1, p1) = getInnertube ''MWEB'' False emptyPool;
           p2 = settle 0 (Inr 7) p1
       in await r1 p2 = Fulfilled 7 \<and> clientsMap p2 ''MWEB'' = Some 7 \<and>
          pendingMap p2 ''MWEB'' = None)"
  by (simp add: getInnertube_def startCreate_def emptyPool_def settle_def await_def Let_def)

subsection \<open>Insertion-ordered maps\<close>

lemma map_of_mapSet: "map_of (mapSet k v m) = (map_of m)(k \<mapsto> v)"
  by (induction m) (auto simp: fun_upd_twist)

lemma keys_mapSet: "fst ` set (mapSet k v m) = insert k (fst ` set m)"
  using arg_cong[OF map_of_mapSet[of k v m], of dom] by (simp add: dom_map_of_conv_image_fst)

lemma distinct_mapSet: "distinct (map fst m) \<Longrightarrow> distinct (map fst (mapSet k v m))"
  by (induction m) (auto simp: keys_mapSet)

subsection \<open>The progressive ladder\<close>

lemma distinct_addMuxed: "distinct (map fst m) \<Longrightarrow> distinct (map fst (addMuxed f m))"
  by (simp add: addMuxed_def distinct_mapSet split: option.splits)

lemma distinct_addAdaptive: "distinct (map fst m) \<Longrightarrow> distinct (map fst (addAdaptive f m))"
  by (simp add: addAdaptive_def distinct_mapSet split: option.splits)

lemma distinct_fold_addMuxed:
  "distinct (map fst m) \<Longrightarrow> distinct (map fst (fold addMuxed fs m))"
  by (induction fs arbitrary: m) (simp_all add: distinct_addMuxed)

lemma distinct_fold_addAdaptive:
  "distinct (map fst m) \<Longrightarrow> distinct (map fst (fold addAdaptive fs m))"
  by (induction fs arbitrary: m) (simp_all add: distinct_addAdaptive)

lemma dom_addMuxed:
  "dom (map_of (addMuxed f m)) = dom (map_of m) \<union> {h. h \<noteq> 0 \<and> height f = Some h}"
  by (auto simp: addMuxed_def map_of_mapSet split: option.splits if_splits)

lemma dom_addAdaptive:
  "dom (map_of (addAdaptive f m)) = dom (map_of m) \<union> {h. h \<noteq> 0 \<and> height f = Some h}"
  by (auto simp: addAdaptive_def mapHas_def map_of_mapSet split: option.splits if_splits)

lemma dom_fold_addMuxed:
  "dom (map_of (fold addMuxed fs m)) =
     dom (map_of m) \<union> {h. h \<noteq> 0 \<and> (\<exists>f \<in> set fs. height f = Some h)}"
  by (induction fs arbitrary: m) (auto simp: dom_addMuxed)

lemma dom_fold_addAdaptive:
  "dom (map_of (fold addAdaptive fs m)) =
     dom (map_of m) \<union> {h. h \<noteq> 0 \<and> (\<exists>f \<in> set fs. height f = Some h)}"
  by (induction fs arbitrary: m) (auto simp: dom_addAdaptive)

lemma audio_fold_addMuxed:
  assumes "map_of (fold addMuxed fs m) h = Some e"
    and "\<And>e'. map_of m h = Some e' \<Longrightarrow> vfe_hasAudio e'"
  shows "vfe_hasAudio e"
  using assms
proof (induction fs arbitrary: m)
  case Nil
  then show ?case by simp
next
  case (Cons f fs)
  have "vfe_hasAudio e'" if "map_of (addMuxed f m) h = Some e'" for e'
    using that Cons.prems(2)
    by (auto simp: addMuxed_def map_of_mapSet split: option.splits if_splits)
  with Cons.IH[of "addMuxed f m"] Cons.prems(1) show ?case by simp
qed

lemma keep_addAdaptive:
  "map_of m h = Some e \<Longrightarrow> map_of (addAdaptive f m) h = Some e"
  by (auto simp: addAdaptive_def mapHas_def map_of_mapSet split: option.splits)

lemma keep_fold_addAdaptive:
  "map_of m h = Some e \<Longrightarrow> map_of (fold addAdaptive fs m) h = Some e"
  by (induction fs arbitrary: m) (simp_all add: keep_addAdaptive)

lemma new_fold_addAdaptive:
  assumes "map_of (fold addAdaptive fs m) h = Some e" and "map_of m h = None"
  shows "\<not> vfe_hasAudio e"
  using assms
proof (induction fs arbitrary: m)
  case Nil
  then show ?case by simp
next
  case (Cons f fs)
  show ?case
  proof (cases "map_of (addAdaptive f m) h")
    case None
    with Cons.IH[of "addAdaptive f m"] Cons.prems(1) show ?thesis by simp
  next
    case (Some e')
    then have "\<not> vfe_hasAudio e'"
      using Cons.prems(2)
      by (auto simp: addAdaptive_def map_of_mapSet split: option.splits if_splits)
    moreover have "map_of (fold addAdaptive fs (addAdaptive f m)) h = Some e'"
      using Some by (rule keep_fold_addAdaptive)
    ultimately show ?thesis using Cons.prems(1) by simp
  qed
qed

lemma distinct_byHeight: "distinct (map fst (byHeight sd))"
  by (simp add: byHeight_def distinct_fold_addAdaptive distinct_fold_addMuxed)

lemma dom_byHeight:
  "dom (map_of (byHeight sd)) =
     {h. h \<noteq> 0 \<and> (\<exists>f \<in> set (muxedFormats sd) \<union> set (adaptiveVideoFormats sd). height f = Some h)}"
  by (auto simp: byHeight_def dom_fold_addAdaptive dom_fold_addMuxed)

lemma audio_byHeight:
  assumes "map_of (byHeight sd) h = Some e"
  shows "vfe_hasAudio e \<longleftrightarrow> (\<exists>f \<in> set (muxedFormats sd). height f = Some h)"
proof (cases "map_of (fold addMuxed (muxedFormats sd) []) h")
  case None
  then have "h \<notin> dom (map_of (fold addMuxed (muxedFormats sd) []))" by auto
  moreover have "h \<noteq> 0"
    using assms dom_byHeight[of sd] by auto
  ultimately have "\<not> (\<exists>f \<in> set (muxedFormats sd). height f = Some h)"
    by (auto simp: dom_fold_addMuxed)
  moreover have "\<not> vfe_hasAudio e"
    using assms None unfolding byHeight_def by (rule new_fold_addAdaptive)
  ultimately show ?thesis by simp
next
  case (Some e')
  then have "vfe_hasAudio e'"
    by (rule audio_fold_addMuxed) simp
  moreover have "map_of (byHeight sd) h = Some e'"
    unfolding byHeight_def using Some by (rule keep_fold_addAdaptive)
  moreover have "h \<in> dom (map_of (fold addMuxed (muxedFormats sd) []))"
    using Some by auto
  then have "\<exists>f \<in> set (muxedFormats sd). height f = Some h"
    by (auto simp: dom_fold_addMuxed)
  ultimately show ?thesis using assms by simp
qed

lemma entry_fold_addMuxed:
  assumes "map_of (fold addMuxed fs m) h = Some e"
    and "\<And>e'. map_of m h = Some e' \<Longrightarrow> P e'"
    and "\<And>f. f \<in> set fs \<Longrightarrow> height f = Some h \<Longrightarrow>
           P \<lparr>vfe_format = f, vfe_hasAudio = True, vfe_label = labelOf f h\<rparr>"
  shows "P e"
  using assms
proof (induction fs arbitrary: m)
  case Nil
  then show ?case by simp
next
  case (Cons f fs)
  have "P e'" if "map_of (addMuxed f m) h = Some e'" for e'
    using that Cons.prems(2) Cons.prems(3)[of f]
    by (auto simp: addMuxed_def map_of_mapSet split: option.splits if_splits)
  with Cons.IH[of "addMuxed f m"] Cons.prems(1,3) show ?case by simp
qed

lemma entry_fold_addAdaptive:
  assumes "map_of (fold addAdaptive fs m) h = Some e"
    and "\<And>e'. map_of m h = Some e' \<Longrightarrow> P e'"
    and "\<And>f. f \<in> set fs \<Longrightarrow> height f = Some h \<Longrightarrow>
           P \<lparr>vfe_format = f, vfe_hasAudio = False, vfe_label = labelOf f h\<rparr>"
  shows "P e"
  using assms
proof (induction fs arbitrary: m)
  case Nil
  then show ?case by simp
next
  case (Cons f fs)
  have "P e'" if "map_of (addAdaptive f m) h = Some e'" for e'
    using that Cons.prems(2) Cons.prems(3)[of f]
    by (auto simp: addAdaptive_def map_of_mapSet split: option.splits if_splits)
  with Cons.IH[of "addAdaptive f m"] Cons.prems(1,3) show ?case by simp
qed

lemma format_byHeight:
  assumes "map_of (byHeight sd) h = Some e"
  shows "vfe_format e \<in> set (muxedFormats sd) \<union> set (adaptiveVideoFormats sd) \<and>
         height (vfe_format e) = Some h \<and> vfe_hasAudio e = has_audio (vfe_format e)"
proof -
  let ?P = "\<lambda>e. vfe_format e \<in> set (muxedFormats sd) \<union> set (adaptiveVideoFormats sd) \<and>
         height (vfe_format e) = Some h \<and> vfe_hasAudio e = has_audio (vfe_format e)"
  have m: "?P e'" if "map_of (fold addMuxed (muxedFormats sd) []) h = Some e'" for e'
    using that
  proof (rule entry_fold_addMuxed)
    fix f assume "f \<in> set (muxedFormats sd)" and "height f = Some h"
    then show "?P \<lparr>vfe_format = f, vfe_hasAudio = True, vfe_label = labelOf f h\<rparr>"
      by (auto simp: muxedFormats_def)
  qed simp
  from assms show ?thesis
    unfolding byHeight_def
  proof (rule entry_fold_addAdaptive)
    fix f assume "f \<in> set (adaptiveVideoFormats sd)" and "height f = Some h"
    then show "?P \<lparr>vfe_format = f, vfe_hasAudio = False, vfe_label = labelOf f h\<rparr>"
      by (auto simp: adaptiveVideoFormats_def)
  qed (rule m)
qed

lemma sorted_ladder: "sorted (map q_height (ladder m))"
  by (simp add: ladder_def sorted_sort_key)

lemma distinct_ladder:
  assumes "distinct (map fst m)"
  shows "distinct (map q_height (ladder m))"
proof -
  have "map q_height (map qualityOf m) = map fst m"
    by (simp add: qualityOf_def comp_def)
  with assms have "distinct (map q_height (map qualityOf m))" by (simp only:)
  then show ?thesis
    unfolding ladder_def by (simp only: distinct_map distinct_sort set_sort)
qed

lemma set_ladder: "set (ladder m) = qualityOf ` set m"
  by (simp add: ladder_def)

lemma closest_foldl:
  "foldl closer b qs \<in> set (b # qs) \<and>
   (\<forall>q \<in> set (b # qs). \<bar>q_height (foldl closer b qs) - 720\<bar> \<le> \<bar>q_height q - 720\<bar>)"
proof (induction qs arbitrary: b)
  case Nil
  then show ?case by simp
next
  case (Cons a qs)
  from Cons.IH[of "closer b a"] show ?case
    by (auto simp: closer_def split: if_splits)
qed

lemma heights_ladder_byHeight:
  "q_height ` set (ladder (byHeight sd)) =
     {h. h \<noteq> 0 \<and> (\<exists>f \<in> set (muxedFormats sd) \<union> set (adaptiveVideoFormats sd). height f = Some h)}"
proof -
  have "q_height ` set (ladder (byHeight sd)) = fst ` set (byHeight sd)"
    by (force simp: set_ladder qualityOf_def)
  also have "\<dots> = dom (map_of (byHeight sd))"
    by (simp add: dom_map_of_conv_image_fst)
  finally show ?thesis by (simp only: dom_byHeight)
qed

lemma audio_ladder_byHeight:
  assumes "q \<in> set (ladder (byHeight sd))"
  shows "q_hasAudio q \<longleftrightarrow> (\<exists>f \<in> set (muxedFormats sd). height f = Some (q_height q))"
proof -
  from assms obtain h e where he: "(h, e) \<in> set (byHeight sd)" and q: "q = qualityOf (h, e)"
    by (auto simp: set_ladder)
  from he have "map_of (byHeight sd) h = Some e"
    using distinct_byHeight[of sd] by simp
  from audio_byHeight[OF this] q show ?thesis by (simp add: qualityOf_def)
qed

lemma progressiveFallback_SomeD:
  assumes "progressiveFallback sd = Some r"
  shows "\<exists>q qs. ladder (byHeight sd) = q # qs \<and> qualities r = q # qs \<and>
           defaultHeight r = q_height (foldl closer q qs)"
  using assms
  by (auto simp: progressiveFallback_def Let_def split: list.splits option.splits sum.splits)

lemma progressiveFallback_no_rung:
  assumes "ladder (byHeight sd) = []"
  shows "progressiveFallback sd = None"
  using assms by (simp add: progressiveFallback_def)

lemma progressiveFallback_default:
  assumes "f \<in> set (muxedFormats sd) \<union> set (adaptiveVideoFormats sd)"
    and "height f = Some h" and "h \<noteq> 0"
  shows "\<exists>g \<in> set (muxedFormats sd) \<union> set (adaptiveVideoFormats sd). \<exists>d.
           d \<noteq> 0 \<and> height g = Some d \<and>
           progressiveFallback sd =
             (case decipher g of
                Inl e \<Rightarrow> None
              | Inr u \<Rightarrow>
                  Some \<lparr>url = u, isDash = False, isHLS = False, hasAudio = has_audio g,
                        qualities = ladder (byHeight sd), defaultHeight = d\<rparr>)"
proof -
  from assms have "h \<in> dom (map_of (byHeight sd))"
    unfolding dom_byHeight by blast
  then have "byHeight sd \<noteq> []" by auto
  then have "ladder (byHeight sd) \<noteq> []"
    using set_ladder[of "byHeight sd"] by (metis image_is_empty set_empty)
  then obtain q qs where l: "ladder (byHeight sd) = q # qs"
    by (cases "ladder (byHeight sd)") auto
  define dq where "dq = foldl closer q qs"
  have "dq \<in> set (ladder (byHeight sd))"
    unfolding dq_def l using closest_foldl[of q qs] by blast
  then obtain p where p: "p \<in> set (byHeight sd)" and dq: "dq = qualityOf p"
    unfolding set_ladder by blast
  obtain d e where pe: "p = (d, e)" by (cases p)
  have m: "map_of (byHeight sd) d = Some e"
    using p pe distinct_byHeight[of sd] by simp
  have hd: "q_height dq = d"
    using dq pe by (simp add: qualityOf_def)
  from format_byHeight[OF m] have g: "vfe_format e \<in> set (muxedFormats sd) \<union> set (adaptiveVideoFormats sd)"
    "height (vfe_format e) = Some d" "vfe_hasAudio e = has_audio (vfe_format e)"
    by blast+
  from m have "d \<in> dom (map_of (byHeight sd))" by auto
  then have d0: "d \<noteq> 0" unfolding dom_byHeight by blast
  have "progressiveFallback sd =
             (case decipher (vfe_format e) of
                Inl e \<Rightarrow> None
              | Inr u \<Rightarrow>
                  Some \<lparr>url = u, isDash = False, isHLS = False, hasAudio = has_audio (vfe_format e),
                        qualities = ladder (byHeight sd), defaultHeight = d\<rparr>)"
    using l m hd g(3) unfolding dq_def
    by (simp add: progressiveFallback_def Let_def split: sum.splits)
  with g(1,2) d0 show ?thesis by blast
qed

lemma getVideoInfo_progressive:
  assumes "getCachedVideoInfo up cid st = (Inr (i, it), st1)" and "streaming_data i = Some sd"
    and "platform host = ios \<and> iosHlsUrl up it cid sd = None \<or>
         platform host = android \<and> toDash i = Inl e"
  shows "getVideoInfo ng host up cid st = (progressiveFallback sd, st1)"
  using assms by (auto simp: getVideoInfo_def dashOrProgressive_def)

text \<open>
  C3. The progressive fallback of \<open>getVideoInfo\<close>. When a muxed or an adaptive video-only
  format has a usable (present, non-zero) height, there is such a format \<open>g\<close> whose height
  is the default height: the fallback returns \<open>null\<close> when \<open>g\<close> does not decipher, and
  otherwise a progressive result with the deciphered URL of \<open>g\<close>, the audio flag of \<open>g\<close> and
  that default height. When the fallback returns a result, its \<open>qualities\<close> are sorted by
  height without repetition, their heights are exactly the usable heights of the muxed
  and of the adaptive video-only formats, a rung has audio exactly when a muxed format
  has its height, and \<open>defaultHeight\<close> is the height of a rung at least as close to 720 as
  every other rung. When no format has a usable height the fallback returns \<open>null\<close>. The
  fallback is what \<open>getVideoInfo\<close> returns on iOS without an HLS URL and on Android after a
  failed DASH synthesis.
\<close>

theorem progressive_quality_ladder:
  "((\<exists>f \<in> set (muxedFormats sd) \<union> set (adaptiveVideoFormats sd). \<exists>h. h \<noteq> 0 \<and> height f = Some h) \<longrightarrow>
      (\<exists>g \<in> set (muxedFormats sd) \<union> set (adaptiveVideoFormats sd). \<exists>d.
         d \<noteq> 0 \<and> height g = Some d \<and>
         (\<forall>e. decipher g = Inl e \<longrightarrow> progressiveFallback sd = None) \<and>
         (\<forall>u. decipher g = Inr u \<longrightarrow>
            (\<exists>r. progressiveFallback sd = Some r \<and> url r = u \<and> \<not> isDash r \<and> \<not> isHLS r \<and>
                 hasAudio r = has_audio g \<and> defaultHeight r = d))))
   \<and> (progressiveFallback sd = Some r \<longrightarrow>
      sorted (map q_height (qualities r)) \<and> distinct (map q_height (qualities r)) \<and>
      q_height ` set (qualities r) =
        {h. h \<noteq> 0 \<and> (\<exists>f \<in> set (muxedFormats sd) \<union> set (adaptiveVideoFormats sd). height f = Some h)} \<and>
      (\<forall>q \<in> set (qualities r).
         q_hasAudio q \<longleftrightarrow> (\<exists>f \<in> set (muxedFormats sd). height f = Some (q_height q))) \<and>
      defaultHeight r \<in> q_height ` set (qualities r) \<and>
      (\<forall>q \<in> set (qualities r). \<bar>defaultHeight r - 720\<bar> \<le> \<bar>q_height q - 720\<bar>))
   \<and> ((\<forall>f \<in> set (muxedFormats sd) \<union> set (adaptiveVideoFormats sd).
          height f = None \<or> height f = Some 0) \<longrightarrow>
        progressiveFallback sd = None)
   \<and> (getCachedVideoInfo up cid st = (Inr (i, it), st1) \<and> streaming_data i = Some sd \<and>
        (platform host = ios \<and> iosHlsUrl up it cid sd = None \<or>
         platform host = android \<and> toDash i = Inl e) \<longrightarrow>
        getVideoInfo ng host up cid st = (progressiveFallback sd, st1))"
proof (intro conjI; rule impI)
  assume "\<exists>f \<in> set (muxedFormats sd) \<union> set (adaptiveVideoFormats sd). \<exists>h. h \<noteq> 0 \<and> height f = Some h"
  then obtain f h where "f \<in> set (muxedFormats sd) \<union> set (adaptiveVideoFormats sd)"
    "height f = Some h" "h \<noteq> 0"
    by blast
  from progressiveFallback_default[OF this] obtain g d where
    g: "g \<in> set (muxedFormats sd) \<union> set (adaptiveVideoFormats sd)" "d \<noteq> 0" "height g = Some d"
    and p: "progressiveFallback sd =
             (case decipher g of
                Inl e \<Rightarrow> None
              | Inr u \<Rightarrow>
                  Some \<lparr>url = u, isDash = False, isHLS = False, hasAudio = has_audio g,
                        qualities = ladder (byHeight sd), defaultHeight = d\<rparr>)"
    by blast
  have 1: "\<forall>e. decipher g = Inl e \<longrightarrow> progressiveFallback sd = None"
    using p by simp
  have 2: "\<forall>u. decipher g = Inr u \<longrightarrow>
            (\<exists>r. progressiveFallback sd = Some r \<and> url r = u \<and> \<not> isDash r \<and> \<not> isHLS r \<and>
                 hasAudio r = has_audio g \<and> defaultHeight r = d)"
    using p by simp
  from g 1 2
  show "\<exists>g \<in> set (muxedFormats sd) \<union> set (adaptiveVideoFormats sd). \<exists>d.
         d \<noteq> 0 \<and> height g = Some d \<and>
         (\<forall>e. decipher g = Inl e \<longrightarrow> progressiveFallback sd = None) \<and>
         (\<forall>u. decipher g = Inr u \<longrightarrow>
            (\<exists>r. progressiveFallback sd = Some r \<and> url r = u \<and> \<not> isDash r \<and> \<not> isHLS r \<and>
                 hasAudio r = has_audio g \<and> defaultHeight r = d))"
    by blast
next
  assume "progressiveFallback sd = Some r"
  from progressiveFallback_SomeD[OF this] obtain q qs where
    l: "ladder (byHeight sd) = q # qs" and qr: "qualities r = q # qs"
    and d: "defaultHeight r = q_height (foldl closer q qs)"
    by blast
  have e: "qualities r = ladder (byHeight sd)" using l qr by simp
  have 1: "sorted (map q_height (qualities r))"
    unfolding e by (rule sorted_ladder)
  have 2: "distinct (map q_height (qualities r))"
    unfolding e by (rule distinct_ladder) (rule distinct_byHeight)
  have 3: "q_height ` set (qualities r) =
        {h. h \<noteq> 0 \<and> (\<exists>f \<in> set (muxedFormats sd) \<union> set (adaptiveVideoFormats sd). height f = Some h)}"
    unfolding e by (rule heights_ladder_byHeight)
  have 4: "\<forall>q \<in> set (qualities r).
         q_hasAudio q \<longleftrightarrow> (\<exists>f \<in> set (muxedFormats sd). height f = Some (q_height q))"
    unfolding e using audio_ladder_byHeight by blast
  have 5: "defaultHeight r \<in> q_height ` set (qualities r)"
    using closest_foldl[of q qs] unfolding d qr by blast
  have 6: "\<forall>q \<in> set (qualities r). \<bar>defaultHeight r - 720\<bar> \<le> \<bar>q_height q - 720\<bar>"
    using closest_foldl[of q qs] unfolding d qr by blast
  from 1 2 3 4 5 6
  show "sorted (map q_height (qualities r)) \<and> distinct (map q_height (qualities r)) \<and>
      q_height ` set (qualities r) =
        {h. h \<noteq> 0 \<and> (\<exists>f \<in> set (muxedFormats sd) \<union> set (adaptiveVideoFormats sd). height f = Some h)} \<and>
      (\<forall>q \<in> set (qualities r).
         q_hasAudio q \<longleftrightarrow> (\<exists>f \<in> set (muxedFormats sd). height f = Some (q_height q))) \<and>
      defaultHeight r \<in> q_height ` set (qualities r) \<and>
      (\<forall>q \<in> set (qualities r). \<bar>defaultHeight r - 720\<bar> \<le> \<bar>q_height q - 720\<bar>)"
    by (intro conjI)
next
  assume a: "\<forall>f \<in> set (muxedFormats sd) \<union> set (adaptiveVideoFormats sd).
          height f = None \<or> height f = Some 0"
  have "q_height ` set (ladder (byHeight sd)) = {}"
    unfolding heights_ladder_byHeight using a by force
  then have "ladder (byHeight sd) = []" by simp
  then show "progressiveFallback sd = None" by (rule progressiveFallback_no_rung)
next
  assume "getCachedVideoInfo up cid st = (Inr (i, it), st1) \<and> streaming_data i = Some sd \<and>
        (platform host = ios \<and> iosHlsUrl up it cid sd = None \<or>
         platform host = android \<and> toDash i = Inl e)"
  then show "getVideoInfo ng host up cid st = (progressiveFallback sd, st1)"
    using getVideoInfo_progressive by blast
qed

lemmas ladder_simps =
  progressiveFallback_def byHeight_def muxedFormats_def adaptiveVideoFormats_def exFormat_def
  addMuxed_def addAdaptive_def mapHas_def labelOf_def showInt_def showNat.simps digitChar_def
  ladder_def qualityOf_def closer_def isVideoMime_def orEmpty_def Let_def

lemma ex_ladder: "progressiveFallback exStreamingData = Some exLadder"
  by (simp add: ladder_simps exStreamingData_def exLadder_def)

lemma ex_far: "progressiveFallback farStreamingData = Some farLadder"
  by (simp add: ladder_simps farStreamingData_def farLadder_def)

lemma ex_far_formats:
  "set (muxedFormats farStreamingData) \<union> set (adaptiveVideoFormats farStreamingData) =
     {exFormat True 480 ''m480'', exFormat False 1080 ''a1080''}"
  by (auto simp: farStreamingData_def muxedFormats_def adaptiveVideoFormats_def exFormat_def
      orEmpty_def isVideoMime_def)

theorem progressive_quality_ladder_witness:
  "(\<exists>f \<in> set (muxedFormats farStreamingData) \<union> set (adaptiveVideoFormats farStreamingData).
      \<exists>h. h \<noteq> 0 \<and> height f = Some h) \<and>
   (\<exists>g \<in> set (muxedFormats farStreamingData) \<union> set (adaptiveVideoFormats farStreamingData).
      height g = Some (defaultHeight farLadder) \<and> decipher g = Inr (url farLadder) \<and>
      hasAudio farLadder = has_audio g) \<and>
   progressiveFallback farStreamingData = Some farLadder \<and>
   q_height ` set (qualities farLadder) = {480, 1080} \<and> defaultHeight farLadder = 480 \<and>
   progressiveFallback exStreamingData = Some exLadder \<and>
   sorted (map q_height (qualities exLadder)) \<and> distinct (map q_height (qualities exLadder)) \<and>
   q_height ` set (qualities exLadder) = {360, 720, 1080} \<and>
   list_all (\<lambda>q. q_hasAudio q \<longleftrightarrow>
               (\<exists>f \<in> set (muxedFormats exStreamingData). height f = Some (q_height q)))
     (qualities exLadder) \<and>
   map q_hasAudio (qualities exLadder) = [True, True, False] \<and>
   defaultHeight exLadder \<in> q_height ` set (qualities exLadder) \<and>
   list_all (\<lambda>q. \<bar>defaultHeight exLadder - 720\<bar> \<le> \<bar>q_height q - 720\<bar>) (qualities exLadder) \<and>
   list_all (\<lambda>f. height f = None \<or> height f = Some 0)
     (muxedFormats noHeightStreamingData @ adaptiveVideoFormats noHeightStreamingData) \<and>
   progressiveFallback noHeightStreamingData = None \<and>
   getCachedVideoInfo exUpstream ''v'' emptyState = (Inr (exInfo, 0), cachedState) \<and>
   streaming_data exInfo = Some exStreamingData \<and>
   platform androidHost = android \<and> toDash exInfo = Inl (Failure ''no dash'') \<and>
   getVideoInfo exNumbers androidHost exUpstream ''v'' emptyState = (Some exLadder, cachedState)"
proof -
  note t = progressive_quality_ladder[of exStreamingData exLadder exUpstream "''v''"
      emptyState exInfo 0 cachedState androidHost "Failure ''no dash''" exNumbers]
  have sd: "streaming_data exInfo = Some exStreamingData"
    by (simp add: exInfo_def)
  have pf: "platform androidHost = android" "toDash exInfo = Inl (Failure ''no dash'')"
    by (simp_all add: androidHost_def exInfo_def)
  have fh: "\<exists>f \<in> set (muxedFormats farStreamingData) \<union> set (adaptiveVideoFormats farStreamingData).
      \<exists>h. h \<noteq> 0 \<and> height f = Some h"
    unfolding ex_far_formats by (simp add: exFormat_def)
  from progressive_quality_ladder[of farStreamingData, THEN conjunct1, rule_format, OF fh]
  obtain g d where g: "g \<in> set (muxedFormats farStreamingData) \<union> set (adaptiveVideoFormats farStreamingData)"
    and d: "height g = Some d"
    and r: "\<forall>u. decipher g = Inr u \<longrightarrow>
            (\<exists>r. progressiveFallback farStreamingData = Some r \<and> url r = u \<and> \<not> isDash r \<and>
                 \<not> isHLS r \<and> hasAudio r = has_audio g \<and> defaultHeight r = d)"
    by blast
  from g obtain u where u: "decipher g = Inr u"
    unfolding ex_far_formats by (auto simp: exFormat_def)
  from r u have "url farLadder = u \<and> hasAudio farLadder = has_audio g \<and> defaultHeight farLadder = d"
    unfolding ex_far by auto
  with g d u have fg: "\<exists>g \<in> set (muxedFormats farStreamingData) \<union> set (adaptiveVideoFormats farStreamingData).
      height g = Some (defaultHeight farLadder) \<and> decipher g = Inr (url farLadder) \<and>
      hasAudio farLadder = has_audio g"
    by auto
  have fq: "q_height ` set (qualities farLadder) = {480, 1080}" "defaultHeight farLadder = 480"
    by (simp_all add: farLadder_def)
  from t[THEN conjunct2, THEN conjunct1, rule_format, OF ex_ladder]
  have c: "sorted (map q_height (qualities exLadder))"
    "distinct (map q_height (qualities exLadder))"
    "q_height ` set (qualities exLadder) =
        {h. h \<noteq> 0 \<and> (\<exists>f \<in> set (muxedFormats exStreamingData) \<union>
                              set (adaptiveVideoFormats exStreamingData). height f = Some h)}"
    "\<forall>q \<in> set (qualities exLadder).
         q_hasAudio q \<longleftrightarrow> (\<exists>f \<in> set (muxedFormats exStreamingData). height f = Some (q_height q))"
    "defaultHeight exLadder \<in> q_height ` set (qualities exLadder)"
    "\<forall>q \<in> set (qualities exLadder). \<bar>defaultHeight exLadder - 720\<bar> \<le> \<bar>q_height q - 720\<bar>"
    by blast+
  have h: "q_height ` set (qualities exLadder) = {360, 720, 1080}"
    by (simp add: exLadder_def)
  have a: "map q_hasAudio (qualities exLadder) = [True, True, False]"
    by (simp add: exLadder_def)
  have n: "list_all (\<lambda>f. height f = None \<or> height f = Some 0)
     (muxedFormats noHeightStreamingData @ adaptiveVideoFormats noHeightStreamingData)"
    by (simp add: noHeightStreamingData_def muxedFormats_def adaptiveVideoFormats_def
        exFormat_def orEmpty_def isVideoMime_def)
  have n': "progressiveFallback noHeightStreamingData = None"
    using progressive_quality_ladder[of noHeightStreamingData, THEN conjunct2, THEN conjunct2, THEN conjunct1] n
    by (simp add: list_all_iff)
  have g': "getVideoInfo exNumbers androidHost exUpstream ''v'' emptyState = (Some exLadder, cachedState)"
    using t[THEN conjunct2, THEN conjunct2, THEN conjunct2] ex_getCachedVideoInfo sd pf ex_ladder by simp
  show ?thesis
    using fh fg ex_far fq ex_ladder c(1,2) h c(4)[folded list_all_iff] a c(5) c(6)[folded list_all_iff] n n'
      ex_getCachedVideoInfo sd pf g'
    by (intro conjI)
qed

subsection \<open>Exact-height lookup\<close>

lemma resolveAtHeight_sound:
  assumes "resolveAtHeight i h = Some r"
  shows "\<exists>f \<in> set (allFormats i). height f = Some h \<and> decipher f = Inr (qu_url r) \<and>
           has_audio f = qu_hasAudio r"
  using assms
  by (auto simp: resolveAtHeight_def allFormats_def isMuxedAt_def isAdaptiveAt_def
      split: option.splits sum.splits dest!: find_SomeD)

lemma resolveAtHeight_muxed_first:
  assumes "resolveAtHeight i h = Some r" and "\<not> qu_hasAudio r"
    and "streaming_data i = Some sd" and "f \<in> set (orEmpty (formats sd))"
  shows "\<not> isMuxedAt h f"
  using assms
  by (auto simp: resolveAtHeight_def split: option.splits sum.splits dest: find_NoneD)

lemma resolveAtHeight_none:
  assumes "\<forall>f \<in> set (allFormats i). height f \<noteq> Some h"
  shows "resolveAtHeight i h = None"
  using assms
  by (auto simp: resolveAtHeight_def allFormats_def isMuxedAt_def isAdaptiveAt_def
      split: option.splits sum.splits dest!: find_SomeD)

text \<open>
  C4. \<open>getVideoUrlForQuality(contentId, targetHeight)\<close> returns only a URL deciphered from a
  format of the streaming data whose height is exactly \<open>targetHeight\<close> (a muxed one when
  the result has audio, and an adaptive one only when no muxed format matches); when no
  format has that height the result is \<open>null\<close>, whatever other heights are there.
\<close>

theorem getVideoUrlForQuality_exact_height:
  "(getVideoUrlForQuality up cid h st = (Some r, st') \<longrightarrow>
      (\<exists>i it f. getCachedVideoInfo up cid st = (Inr (i, it), st') \<and>
         f \<in> set (allFormats i) \<and> height f = Some h \<and> decipher f = Inr (qu_url r) \<and>
         has_audio f = qu_hasAudio r \<and>
         (\<forall>sd g. \<not> qu_hasAudio r \<and> streaming_data i = Some sd \<and> g \<in> set (orEmpty (formats sd))
            \<longrightarrow> \<not> isMuxedAt h g)))
   \<and> (getCachedVideoInfo up cid st = (Inr (i', it'), st') \<and>
        (\<forall>f \<in> set (allFormats i'). height f \<noteq> Some h) \<longrightarrow>
        getVideoUrlForQuality up cid h st = (None, st'))"
proof (intro conjI impI)
  assume a: "getVideoUrlForQuality up cid h st = (Some r, st')"
  then obtain i it where c: "getCachedVideoInfo up cid st = (Inr (i, it), st')"
    and r: "resolveAtHeight i h = Some r"
    by (auto simp: getVideoUrlForQuality_def split: prod.splits sum.splits)
  from resolveAtHeight_sound[OF r] obtain f where
    f: "f \<in> set (allFormats i)" "height f = Some h" "decipher f = Inr (qu_url r)"
       "has_audio f = qu_hasAudio r"
    by blast
  have "\<forall>sd g. \<not> qu_hasAudio r \<and> streaming_data i = Some sd \<and> g \<in> set (orEmpty (formats sd))
            \<longrightarrow> \<not> isMuxedAt h g"
    using resolveAtHeight_muxed_first[OF r] by blast
  with c f
  show "\<exists>i it f. getCachedVideoInfo up cid st = (Inr (i, it), st') \<and>
         f \<in> set (allFormats i) \<and> height f = Some h \<and> decipher f = Inr (qu_url r) \<and>
         has_audio f = qu_hasAudio r \<and>
         (\<forall>sd g. \<not> qu_hasAudio r \<and> streaming_data i = Some sd \<and> g \<in> set (orEmpty (formats sd))
            \<longrightarrow> \<not> isMuxedAt h g)"
    by blast
next
  assume a: "getCachedVideoInfo up cid st = (Inr (i', it'), st') \<and>
        (\<forall>f \<in> set (allFormats i'). height f \<noteq> Some h)"
  then have "resolveAtHeight i' h = None"
    by (intro resolveAtHeight_none) simp
  with a show "getVideoUrlForQuality up cid h st = (None, st')"
    by (simp add: getVideoUrlForQuality_def)
qed

lemma ex_resolve_1080:
  "resolveAtHeight exInfo 1080 = Some \<lparr>qu_url = ''a1080'', qu_hasAudio = False\<rparr>"
  by (simp add: resolveAtHeight_def exInfo_def exFormat_def orEmpty_def isMuxedAt_def
      isAdaptiveAt_def isVideoMime_def exStreamingData_def)

lemma ex_no_480: "\<forall>f \<in> set (allFormats exInfo). height f \<noteq> Some 480"
  by (simp add: allFormats_def exInfo_def exStreamingData_def exFormat_def orEmpty_def)

theorem getVideoUrlForQuality_exact_height_witness:
  "(getVideoUrlForQuality exUpstream ''v'' 1080 emptyState =
      (Some \<lparr>qu_url = ''a1080'', qu_hasAudio = False\<rparr>, cachedState) \<and>
    (\<exists>i it f. getCachedVideoInfo exUpstream ''v'' emptyState = (Inr (i, it), cachedState) \<and>
       f \<in> set (allFormats i) \<and> height f = Some 1080 \<and> decipher f = Inr ''a1080''))
   \<and> (getCachedVideoInfo exUpstream ''v'' emptyState = (Inr (exInfo, 0), cachedState) \<and>
        list_all (\<lambda>f. height f \<noteq> Some 480) (allFormats exInfo) \<and>
        getVideoUrlForQuality exUpstream ''v'' 480 emptyState = (None, cachedState))"
proof -
  have g: "getVideoUrlForQuality exUpstream ''v'' 1080 emptyState =
             (Some \<lparr>qu_url = ''a1080'', qu_hasAudio = False\<rparr>, cachedState)"
    by (simp add: getVideoUrlForQuality_def ex_getCachedVideoInfo ex_resolve_1080)
  note t = getVideoUrlForQuality_exact_height
    [of exUpstream "''v''" _ emptyState _ cachedState exInfo 0]
  from t[of 1080 "\<lparr>qu_url = ''a1080'', qu_hasAudio = False\<rparr>", THEN conjunct1, rule_format, OF g]
  obtain i it f where
    "getCachedVideoInfo exUpstream ''v'' emptyState = (Inr (i, it), cachedState)"
    "f \<in> set (allFormats i)" "height f = Some 1080" "decipher f = Inr ''a1080''"
    by auto
  then have p1: "\<exists>i it f. getCachedVideoInfo exUpstream ''v'' emptyState = (Inr (i, it), cachedState) \<and>
       f \<in> set (allFormats i) \<and> height f = Some 1080 \<and> decipher f = Inr ''a1080''"
    by blast
  have p2: "getVideoUrlForQuality exUpstream ''v'' 480 emptyState = (None, cachedState)"
    by (rule t[of 480, THEN conjunct2, rule_format]) (simp add: ex_getCachedVideoInfo ex_no_480)
  have p3: "list_all (\<lambda>f. height f \<noteq> Some 480) (allFormats exInfo)"
    using ex_no_480 by (simp add: list_all_iff)
  show ?thesis using g p1 p2 p3 ex_getCachedVideoInfo by blast
qed

subsection \<open>HLS quality parsing\<close>



















lemmas hls_simps =
  trimUnits_def trimWith_def isWhiteSpace_def stripPrefix_def codecsAt_def resolutionAt_def
  bandwidthAt_def isDigit_def parseInt_def digitsValue_def digitVal_def streamInfo_def
  isStreamInf_def isH264_def Let_def lit_def exNumbers_def

lemma ex_split: "splitOn 10 exManifest = exManifestLines"
  by (simp add: exManifest_def exManifestLines_def avcLine_def vp9Line_def lit_def)









subsection \<open>Filtered manifests\<close>

lemma uri_not_streamInf: "isUriLine u \<Longrightarrow> \<not> isStreamInf u"
proof
  assume u: "isUriLine u" and s: "isStreamInf u"
  from s obtain r where "trimUnits u = lit ''#EXT-X-STREAM-INF:'' @ r"
    by (auto simp: isStreamInf_def prefix_def)
  then have "prefix (lit ''#'') (trimUnits u)" by (simp add: lit_def)
  with u show False by (simp add: isUriLine_def Let_def)
qed

lemma filterLines_plain:
  "\<not> isStreamInf l \<Longrightarrow> filterLines h (l # ls) = l # filterLines h ls"
  by simp

lemma filterLines_variant:
  assumes "isStreamInf s" and "isUriLine u"
  shows "filterLines h (s # u # ls) =
           (if isH264 (trimUnits s) \<and> matchesHeight h (trimUnits s) then s # u # filterLines h ls
            else filterLines h ls)"
  using assms by simp

lemma filterLines_render:
  assumes "list_all wellFormedBlock bs"
  shows "filterLines h (render bs) = render (filter (keepBlock h) bs)"
  using assms
proof (induction bs)
  case Nil
  then show ?case by (simp add: render_def)
next
  case (Cons b bs)
  then have ih: "filterLines h (render bs) = render (filter (keepBlock h) bs)" by simp
  show ?case
  proof (cases b)
    case (Plain l)
    with Cons.prems ih show ?thesis
      by (simp add: render_def)
  next
    case (Variant s u)
    with Cons.prems have "isStreamInf s" "isUriLine u" by simp_all
    from filterLines_variant[OF this, of h "render bs"] ih Variant show ?thesis
      by (simp add: render_def)
  qed
qed

lemma filterLines_streamInf:
  assumes "l \<in> set (filterLines h ls)" and "isStreamInf l"
  shows "isH264 (trimUnits l) \<and> matchesHeight h (trimUnits l)"
  using assms
proof (induction h ls rule: filterLines.induct)
  case (1 h)
  then show ?case by simp
next
  case (2 h x ls)
  show ?case
  proof (cases "isStreamInf x")
    case False
    with 2 show ?thesis by auto
  next
    case True
    note sx = True
    show ?thesis
    proof (cases "isH264 (trimUnits x) \<and> matchesHeight h (trimUnits x)")
      case True
      show ?thesis
      proof (cases "dropWhile (\<lambda>y. \<not> isUriLine y) ls")
        case Nil
        with 2 sx True show ?thesis by auto
      next
        case (Cons u rest)
        then have "isUriLine u" using hd_dropWhile[of "\<lambda>y. \<not> isUriLine y" ls] by auto
        then have "\<not> isStreamInf u" by (rule uri_not_streamInf)
        with 2 sx True Cons show ?thesis by auto
      qed
    next
      case False
      with 2 sx show ?thesis
        by (cases "dropWhile (\<lambda>y. \<not> isUriLine y) ls") auto
    qed
  qed
qed

lemma streamInf_render_count:
  assumes "list_all wellFormedBlock bs"
  shows "length (filter isStreamInf (render bs)) = length (filter (\<lambda>b. \<not> isPlain b) bs)"
  using assms
proof (induction bs)
  case Nil
  then show ?case by (simp add: render_def)
next
  case (Cons b bs)
  then show ?case
    by (cases b) (auto simp: render_def dest: uri_not_streamInf)
qed

lemma kept_variant_count:
  assumes "list_all wellFormedBlock bs"
  shows "length (filter isStreamInf (render (filter (keepBlock h) bs))) =
           length (filter (variantAt h) bs)"
proof -
  have wf: "list_all wellFormedBlock (filter (keepBlock h) bs)"
    using assms by (simp add: list_all_iff)
  have "filter (\<lambda>b. \<not> isPlain b) (filter (keepBlock h) bs) = filter (variantAt h) bs"
  proof (induction bs)
    case Nil
    then show ?case by simp
  next
    case (Cons b bs)
    then show ?case by (cases b) simp_all
  qed
  with streamInf_render_count[OF wf] show ?thesis by simp
qed

lemma keep_plain_only:
  assumes "list_all (\<lambda>b. \<not> variantAt h b) bs"
  shows "filter (keepBlock h) bs = filter isPlain bs"
  using assms
proof (induction bs)
  case Nil
  then show ?case by simp
next
  case (Cons b bs)
  then show ?case by (cases b) simp_all
qed

lemma matchesHeight_resolution:
  assumes "matchesHeight h x"
  shows "\<exists>w. firstMatch resolutionAt x = Some (w, lit (showInt h))"
  using assms by (auto simp: matchesHeight_def split: option.splits)

lemma getFilteredHlsUrl_cached:
  assumes "hlsManifestCache st = Some c"
  shows "getFilteredHlsUrl host h st =
           Some (writeCacheFile host (''hls_'' @ showInt h @ ''p.m3u8'')
                   (joinWith 10 (filterLines h (splitOn 10 (hls_text c)))))"
  using assms by (simp add: getFilteredHlsUrl_def)

lemma hls_cache_getCachedVideoInfo:
  "hlsManifestCache (snd (getCachedVideoInfo up cid st)) = hlsManifestCache st"
  by (simp add: getCachedVideoInfo_def Let_def split: option.splits sum.splits)

lemma hls_cache_parseHlsQualities:
  "hlsManifestCache st \<noteq> None \<Longrightarrow> hlsManifestCache (snd (parseHlsQualities ng up u cid st)) \<noteq> None"
  by (simp add: parseHlsQualities_def split: sum.splits)

lemma hls_cache_getVideoInfo:
  assumes "hlsManifestCache st \<noteq> None"
  shows "hlsManifestCache (snd (getVideoInfo ng host up cid st)) \<noteq> None"
proof -
  obtain res st1 where g: "getCachedVideoInfo up cid st = (res, st1)"
    by (cases "getCachedVideoInfo up cid st")
  then have c1: "hlsManifestCache st1 \<noteq> None"
    using hls_cache_getCachedVideoInfo[of up cid st] assms by simp
  have p: "hlsManifestCache s2 \<noteq> None" if "parseHlsQualities ng up u cid st1 = (r, s2)" for u r s2
    using hls_cache_parseHlsQualities[OF c1, of ng up u cid] that by simp
  show ?thesis
    using g c1
    by (auto simp: getVideoInfo_def split: sum.splits option.splits prod.splits
        simp del: not_None_eq dest: p)
qed

subsection \<open>The example manifest\<close>

lemma ex_render: "render exBlocks = splitOn 10 exManifest"
  by (simp add: ex_split render_def exBlocks_def exManifestLines_def)

lemma ex_lines:
  "isStreamInf (avcLine ''1000'' ''640x360'')" "isStreamInf (avcLine ''2000'' ''640x360'')"
  "isStreamInf (vp9Line ''3000'' ''1280x720'')" "\<not> isStreamInf (lit ''#EXTM3U'')"
  "isUriLine (lit ''http://a/360'')" "isUriLine (lit ''http://a/360b'')" "isUriLine (lit ''http://a/720'')"
  by (simp_all add: avcLine_def vp9Line_def isStreamInf_def isUriLine_def trimUnits_def trimWith_def isWhiteSpace_def lit_def)

lemma ex_wellFormed: "list_all wellFormedBlock exBlocks"
  by (simp add: exBlocks_def ex_lines)

lemma ex_codecs:
  "isH264 (trimUnits (avcLine ''1000'' ''640x360''))" "isH264 (trimUnits (avcLine ''2000'' ''640x360''))"
  "\<not> isH264 (trimUnits (vp9Line ''3000'' ''1280x720''))"
  by (simp_all add: avcLine_def vp9Line_def hls_simps)

lemma ex_resolution:
  "firstMatch resolutionAt (trimUnits (avcLine ''1000'' ''640x360'')) = Some (lit ''640'', lit ''360'')"
  "firstMatch resolutionAt (trimUnits (avcLine ''2000'' ''640x360'')) = Some (lit ''640'', lit ''360'')"
  "firstMatch resolutionAt (trimUnits (vp9Line ''3000'' ''1280x720'')) = Some (lit ''1280'', lit ''720'')"
  by (simp_all add: avcLine_def vp9Line_def hls_simps)

lemma ex_showInt: "showInt 360 = ''360''" "showInt 1080 = ''1080''" "showInt 720 = ''720''"
  by (simp_all add: showInt_def showNat.simps digitChar_def)

lemma ex_keep_360:
  "filter (keepBlock 360) exBlocks =
     [Plain (lit ''#EXTM3U''), Variant (avcLine ''1000'' ''640x360'') (lit ''http://a/360''),
      Variant (avcLine ''2000'' ''640x360'') (lit ''http://a/360b'')]"
  by (simp add: exBlocks_def matchesHeight_def ex_codecs ex_resolution ex_showInt lit_def)

lemma ex_keep_1080: "filter (keepBlock 1080) exBlocks = [Plain (lit ''#EXTM3U'')]"
  by (simp add: exBlocks_def matchesHeight_def ex_codecs ex_resolution ex_showInt lit_def)

lemma ex_filter_360:
  "filterLines 360 (splitOn 10 exManifest) =
     [lit ''#EXTM3U'', avcLine ''1000'' ''640x360'', lit ''http://a/360'',
      avcLine ''2000'' ''640x360'', lit ''http://a/360b'']"
  unfolding ex_render[symmetric] filterLines_render[OF ex_wellFormed] ex_keep_360
  by (simp add: render_def)

lemma ex_filter_1080: "filterLines 1080 (splitOn 10 exManifest) = [lit ''#EXTM3U'']"
  unfolding ex_render[symmetric] filterLines_render[OF ex_wellFormed] ex_keep_1080
  by (simp add: render_def)

lemma ex_cache:
  "hlsManifestCache exHlsState =
     Some \<lparr>hls_contentId = ''v'', hls_text = exManifest, hlsUrl = ''http://m/master.m3u8''\<rparr>"
  by (simp add: exHlsState_def)

text \<open>
  C6, the claim as stated, fails on the code: with the example manifest cached (two
  \<open>avc1\<close> variants at 360, one \<open>vp09\<close> variant at 720) the manifest emitted for height 1080
  is the header line alone, with no stream-info/URI pair, and the one emitted for height
  360 holds two pairs.
\<close>

theorem getFilteredHlsUrl_not_exactly_one:
  "getFilteredHlsUrl echoHost 1080 exHlsState = Some ''#EXTM3U'' \<and>
   length (filter isStreamInf (filterLines 1080 (splitOn 10 exManifest))) \<noteq> 1 \<and>
   filter isStreamInf (filterLines 360 (splitOn 10 exManifest)) =
     [avcLine ''1000'' ''640x360'', avcLine ''2000'' ''640x360'']"
proof (intro conjI)
  show "getFilteredHlsUrl echoHost 1080 exHlsState = Some ''#EXTM3U''"
    by (simp add: getFilteredHlsUrl_cached[OF ex_cache] ex_filter_1080 echoHost_def char_of_lit)
  show "length (filter isStreamInf (filterLines 1080 (splitOn 10 exManifest))) \<noteq> 1"
    by (simp add: ex_filter_1080 ex_lines)
  show "filter isStreamInf (filterLines 360 (splitOn 10 exManifest)) =
     [avcLine ''1000'' ''640x360'', avcLine ''2000'' ''640x360'']"
    using ex_lines(5,6)[THEN uri_not_streamInf] by (simp add: ex_filter_360 ex_lines)
qed

text \<open>
  C6 as amended. Without a cached manifest the result is \<open>null\<close>. For a cached manifest
  that is a sequence of plain lines and stream-info/URI pairs, the emitted manifest is
  the same sequence with every plain line kept verbatim and with exactly those pairs
  kept whose stream-info line is codec-compatible and has the requested height; it holds
  as many pairs as the manifest has such variants, which may be none or several. For any
  cached manifest, every stream-info line that is emitted is codec-compatible and its
  \<open>RESOLUTION\<close> height is the requested one.
\<close>

theorem getFilteredHlsUrl_keeps_matching_variants:
  "(hlsManifestCache st = None \<longrightarrow> getFilteredHlsUrl host h st = None)
   \<and> (hlsManifestCache st = Some c \<and> splitOn 10 (hls_text c) = render bs \<and>
        list_all wellFormedBlock bs \<longrightarrow>
        getFilteredHlsUrl host h st =
          Some (writeCacheFile host (''hls_'' @ showInt h @ ''p.m3u8'')
                  (joinWith 10 (render (filter (keepBlock h) bs)))) \<and>
        length (filter isStreamInf (render (filter (keepBlock h) bs))) =
          length (filter (variantAt h) bs))
   \<and> (hlsManifestCache st = Some c \<and> l \<in> set (filterLines h (splitOn 10 (hls_text c))) \<and>
        isStreamInf l \<longrightarrow>
        isH264 (trimUnits l) \<and> (\<exists>w. firstMatch resolutionAt (trimUnits l) = Some (w, lit (showInt h))))"
proof (intro conjI; rule impI)
  assume "hlsManifestCache st = None"
  then show "getFilteredHlsUrl host h st = None" by (simp add: getFilteredHlsUrl_def)
next
  assume a: "hlsManifestCache st = Some c \<and> splitOn 10 (hls_text c) = render bs \<and>
        list_all wellFormedBlock bs"
  then have "getFilteredHlsUrl host h st =
          Some (writeCacheFile host (''hls_'' @ showInt h @ ''p.m3u8'')
                  (joinWith 10 (render (filter (keepBlock h) bs))))"
    by (simp add: getFilteredHlsUrl_cached filterLines_render)
  moreover have "length (filter isStreamInf (render (filter (keepBlock h) bs))) =
          length (filter (variantAt h) bs)"
    using a by (simp add: kept_variant_count)
  ultimately show "getFilteredHlsUrl host h st =
          Some (writeCacheFile host (''hls_'' @ showInt h @ ''p.m3u8'')
                  (joinWith 10 (render (filter (keepBlock h) bs)))) \<and>
        length (filter isStreamInf (render (filter (keepBlock h) bs))) =
          length (filter (variantAt h) bs)"
    by (rule conjI)
next
  assume "hlsManifestCache st = Some c \<and> l \<in> set (filterLines h (splitOn 10 (hls_text c))) \<and>
        isStreamInf l"
  then have "isH264 (trimUnits l) \<and> matchesHeight h (trimUnits l)"
    using filterLines_streamInf by blast
  then show "isH264 (trimUnits l) \<and> (\<exists>w. firstMatch resolutionAt (trimUnits l) = Some (w, lit (showInt h)))"
    using matchesHeight_resolution by blast
qed

theorem getFilteredHlsUrl_keeps_matching_variants_witness:
  "hlsManifestCache emptyState = None \<and> getFilteredHlsUrl echoHost 360 emptyState = None \<and>
   splitOn 10 exManifest = render exBlocks \<and> list_all wellFormedBlock exBlocks \<and>
   getFilteredHlsUrl echoHost 360 exHlsState =
     Some (map char_of (joinWith 10
             [lit ''#EXTM3U'', avcLine ''1000'' ''640x360'', lit ''http://a/360'',
              avcLine ''2000'' ''640x360'', lit ''http://a/360b''])) \<and>
   length (filter isStreamInf (render (filter (keepBlock 360) exBlocks))) = 2 \<and>
   avcLine ''2000'' ''640x360'' \<in> set (filterLines 360 (splitOn 10 exManifest)) \<and>
   isStreamInf (avcLine ''2000'' ''640x360'') \<and>
   isH264 (trimUnits (avcLine ''2000'' ''640x360'')) \<and>
   (\<exists>w. firstMatch resolutionAt (trimUnits (avcLine ''2000'' ''640x360'')) = Some (w, lit (showInt 360)))"
proof -
  let ?c = "\<lparr>hls_contentId = ''v'', hls_text = exManifest, hlsUrl = ''http://m/master.m3u8''\<rparr>"
  note t = getFilteredHlsUrl_keeps_matching_variants[where host = echoHost and h = 360]
  have e: "hlsManifestCache emptyState = None" by (simp add: emptyState_def)
  have c1: "getFilteredHlsUrl echoHost 360 emptyState = None"
    using t[of emptyState, THEN conjunct1] e by simp
  have r: "splitOn 10 (hls_text ?c) = render exBlocks" by (simp add: ex_render)
  from t[of exHlsState ?c exBlocks, THEN conjunct2, THEN conjunct1] ex_cache r ex_wellFormed
  have c2: "getFilteredHlsUrl echoHost 360 exHlsState =
          Some (writeCacheFile echoHost (''hls_'' @ showInt 360 @ ''p.m3u8'')
                  (joinWith 10 (render (filter (keepBlock 360) exBlocks))))"
    and c3: "length (filter isStreamInf (render (filter (keepBlock 360) exBlocks))) =
          length (filter (variantAt 360) exBlocks)"
    by blast+
  have c2': "getFilteredHlsUrl echoHost 360 exHlsState =
     Some (map char_of (joinWith 10
             [lit ''#EXTM3U'', avcLine ''1000'' ''640x360'', lit ''http://a/360'',
              avcLine ''2000'' ''640x360'', lit ''http://a/360b'']))"
    unfolding c2 ex_keep_360 by (simp add: echoHost_def render_def)
  have c3': "length (filter isStreamInf (render (filter (keepBlock 360) exBlocks))) = 2"
    unfolding c3
    by (simp add: exBlocks_def matchesHeight_def ex_codecs ex_resolution ex_showInt lit_def)
  have m: "avcLine ''2000'' ''640x360'' \<in> set (filterLines 360 (splitOn 10 exManifest))"
    by (simp add: ex_filter_360)
  from t[of exHlsState ?c _ "avcLine ''2000'' ''640x360''", THEN conjunct2, THEN conjunct2]
    ex_cache m ex_lines(2)
  have c4: "isH264 (trimUnits (avcLine ''2000'' ''640x360''))"
    and c5: "\<exists>w. firstMatch resolutionAt (trimUnits (avcLine ''2000'' ''640x360'')) = Some (w, lit (showInt 360))"
    by simp_all
  show ?thesis
    using e c1 ex_render[symmetric] ex_wellFormed c2' c3' m ex_lines(2) c4 c5
    by (intro conjI)
qed

subsection \<open>Item-kind classification\<close>










subsection \<open>Video-info cache\<close>

lemma getCachedVideoInfo_caches:
  assumes "getCachedVideoInfo up cid st = (Inr r, st1)"
  shows "cacheHit st1 cid = Some \<lparr>contentId = cid, info = fst r, innertube = snd r\<rparr>"
  using assms
  by (auto simp: getCachedVideoInfo_def cacheHit_def Let_def split: option.splits sum.splits if_splits)

lemma getCachedVideoInfo_hit:
  assumes "cacheHit st cid = Some c"
  shows "getCachedVideoInfo up cid st = (Inr (info c, innertube c), st)"
  using assms by (simp add: getCachedVideoInfo_def)

lemma getCachedVideoInfo_miss:
  assumes "cacheHit st cid = None" and "awaitInnertube up = Inr it"
    and "getCachedVideoInfo up cid st = (res, st1)"
  shows "metadataFetches st1 = metadataFetches st @ [cid]"
  using assms by (auto simp: getCachedVideoInfo_def Let_def split: sum.splits)

lemma cacheHit_other:
  assumes "cacheHit st d = Some c" and "d \<noteq> cid"
  shows "cacheHit st cid = None"
  using assms by (auto simp: cacheHit_def split: option.splits if_splits)

lemma getCachedVideoInfo_failed:
  assumes "getCachedVideoInfo up cid st = (Inl e, st1)"
  shows "videoInfoCache st1 = videoInfoCache st"
  using assms
  by (auto simp: getCachedVideoInfo_def Let_def split: option.splits sum.splits)

lemma cacheHit_cong:
  "videoInfoCache st1 = videoInfoCache st \<Longrightarrow> cacheHit st1 cid = cacheHit st cid"
  by (simp add: cacheHit_def)

lemma ex_getCachedVideoInfo_other:
  "getCachedVideoInfo exUpstream ''w'' cachedState = (Inr (exInfo, 0), supersededState)"
  by (simp add: exUpstream_def cachedState_def supersededState_def getCachedVideoInfo_def
      cacheHit_def)

lemma ex_getCachedVideoInfo_failed:
  "getCachedVideoInfo failingUpstream ''w'' cachedState = (Inl (Failure ''unavailable''), failedState)"
  by (simp add: failingUpstream_def cachedState_def failedState_def getCachedVideoInfo_def
      cacheHit_def)

text \<open>
  C8, the claim as stated, fails on the code: after a call for \<open>v\<close> has filled the slot, a
  call for the different id \<open>w\<close> whose metadata request fails (it is issued, and logged)
  leaves the slot as it is, since the slot is assigned only after the request has
  succeeded. The next call for \<open>v\<close> is then a cache hit: it returns the cached
  \<open>{info, innertube}\<close> and issues no request, although a call for a different id has
  intervened.
\<close>

theorem getCachedVideoInfo_failed_call_keeps_slot:
  "getCachedVideoInfo exUpstream ''v'' emptyState = (Inr (exInfo, 0), cachedState) \<and>
   ''w'' \<noteq> ''v'' \<and>
   getCachedVideoInfo failingUpstream ''w'' cachedState =
     (Inl (Failure ''unavailable''), failedState) \<and>
   metadataFetches failedState = metadataFetches cachedState @ [''w''] \<and>
   map_option contentId (videoInfoCache failedState) = Some ''v'' \<and>
   getCachedVideoInfo exUpstream ''v'' failedState = (Inr (exInfo, 0), failedState) \<and>
   metadataFetches (snd (getCachedVideoInfo exUpstream ''v'' failedState)) =
     metadataFetches failedState"
proof (intro conjI)
  show "getCachedVideoInfo exUpstream ''v'' emptyState = (Inr (exInfo, 0), cachedState)"
    by (rule ex_getCachedVideoInfo)
  show "''w'' \<noteq> ''v''" by simp
  show "getCachedVideoInfo failingUpstream ''w'' cachedState =
     (Inl (Failure ''unavailable''), failedState)"
    by (rule ex_getCachedVideoInfo_failed)
  show "metadataFetches failedState = metadataFetches cachedState @ [''w'']"
    by (simp add: failedState_def cachedState_def)
  show "map_option contentId (videoInfoCache failedState) = Some ''v''"
    by (simp add: failedState_def)
  show h: "getCachedVideoInfo exUpstream ''v'' failedState = (Inr (exInfo, 0), failedState)"
    by (simp add: failedState_def getCachedVideoInfo_def cacheHit_def)
  show "metadataFetches (snd (getCachedVideoInfo exUpstream ''v'' failedState)) =
     metadataFetches failedState"
    by (simp add: h)
qed

text \<open>
  C8 as amended. After a call of \<open>getCachedVideoInfo\<close> for \<open>cid\<close> has returned, a second call
  for \<open>cid\<close> returns the same \<open>{info, innertube}\<close> and leaves the state, with its log of
  metadata requests, as it is, whatever the upstream would answer. An intervening call
  for a different id \<open>d\<close> that returns replaces the slot, which then holds \<open>d\<close> alone, and
  the next call for \<open>cid\<close> (with a session at hand) issues a metadata request for \<open>cid\<close>
  again. An intervening call for a different id that fails leaves the slot as it is, and
  the next call for \<open>cid\<close> still returns the cached \<open>{info, innertube}\<close> without a request.
\<close>

theorem getCachedVideoInfo_round_trip:
  "(getCachedVideoInfo up1 cid st0 = (Inr r, st1) \<longrightarrow>
      getCachedVideoInfo up2 cid st1 = (Inr r, st1))
   \<and> (getCachedVideoInfo up1 cid st0 = (Inr r, st1) \<and> d \<noteq> cid \<and>
        getCachedVideoInfo up2 d st1 = (Inr r', st2) \<and> awaitInnertube up3 = Inr it \<and>
        getCachedVideoInfo up3 cid st2 = (res, st3) \<longrightarrow>
        map_option contentId (videoInfoCache st2) = Some d \<and>
        metadataFetches st2 = metadataFetches st1 @ [d] \<and>
        metadataFetches st3 = metadataFetches st2 @ [cid])
   \<and> (getCachedVideoInfo up1 cid st0 = (Inr r, st1) \<and> d \<noteq> cid \<and>
        getCachedVideoInfo up2 d st1 = (Inl e, st2) \<longrightarrow>
        videoInfoCache st2 = videoInfoCache st1 \<and>
        getCachedVideoInfo up3 cid st2 = (Inr r, st2))"
proof (intro conjI; rule impI)
  assume a: "getCachedVideoInfo up1 cid st0 = (Inr r, st1)"
  from getCachedVideoInfo_hit[OF getCachedVideoInfo_caches[OF a], of up2]
  show "getCachedVideoInfo up2 cid st1 = (Inr r, st1)" by simp
next
  assume a: "getCachedVideoInfo up1 cid st0 = (Inr r, st1) \<and> d \<noteq> cid \<and>
        getCachedVideoInfo up2 d st1 = (Inr r', st2) \<and> awaitInnertube up3 = Inr it \<and>
        getCachedVideoInfo up3 cid st2 = (res, st3)"
  then have h1: "cacheHit st1 cid = Some \<lparr>contentId = cid, info = fst r, innertube = snd r\<rparr>"
    and h2: "cacheHit st2 d = Some \<lparr>contentId = d, info = fst r', innertube = snd r'\<rparr>"
    by (auto dest: getCachedVideoInfo_caches)
  from a h1 have m1: "cacheHit st1 d = None" by (auto dest: cacheHit_other)
  from a h2 have m2: "cacheHit st2 cid = None" by (auto dest: cacheHit_other)
  have s: "map_option contentId (videoInfoCache st2) = Some d"
    using h2 by (auto simp: cacheHit_def split: option.splits if_splits)
  have f2: "metadataFetches st2 = metadataFetches st1 @ [d]"
    using a m1 by (auto simp: getCachedVideoInfo_def Let_def split: sum.splits)
  have f3: "metadataFetches st3 = metadataFetches st2 @ [cid]"
    using a m2 by (auto dest: getCachedVideoInfo_miss)
  from s f2 f3
  show "map_option contentId (videoInfoCache st2) = Some d \<and>
        metadataFetches st2 = metadataFetches st1 @ [d] \<and>
        metadataFetches st3 = metadataFetches st2 @ [cid]" by simp
next
  assume a: "getCachedVideoInfo up1 cid st0 = (Inr r, st1) \<and> d \<noteq> cid \<and>
        getCachedVideoInfo up2 d st1 = (Inl e, st2)"
  then have k: "videoInfoCache st2 = videoInfoCache st1"
    by (auto dest: getCachedVideoInfo_failed)
  from a have "cacheHit st1 cid = Some \<lparr>contentId = cid, info = fst r, innertube = snd r\<rparr>"
    by (auto dest: getCachedVideoInfo_caches)
  then have "cacheHit st2 cid = Some \<lparr>contentId = cid, info = fst r, innertube = snd r\<rparr>"
    by (simp add: cacheHit_cong[OF k])
  from getCachedVideoInfo_hit[OF this, of up3] k
  show "videoInfoCache st2 = videoInfoCache st1 \<and>
        getCachedVideoInfo up3 cid st2 = (Inr r, st2)" by simp
qed

theorem getCachedVideoInfo_round_trip_witness:
  "getCachedVideoInfo exUpstream ''v'' emptyState = (Inr (exInfo, 0), cachedState) \<and>
   getCachedVideoInfo offlineUpstream ''v'' cachedState = (Inr (exInfo, 0), cachedState) \<and>
   ''w'' \<noteq> ''v'' \<and>
   getCachedVideoInfo exUpstream ''w'' cachedState = (Inr (exInfo, 0), supersededState) \<and>
   awaitInnertube exUpstream = Inr 0 \<and>
   map_option contentId (videoInfoCache supersededState) = Some ''w'' \<and>
   metadataFetches supersededState = metadataFetches cachedState @ [''w''] \<and>
   metadataFetches (snd (getCachedVideoInfo exUpstream ''v'' supersededState)) =
     metadataFetches supersededState @ [''v''] \<and>
   getCachedVideoInfo failingUpstream ''w'' cachedState =
     (Inl (Failure ''unavailable''), failedState) \<and>
   videoInfoCache failedState = videoInfoCache cachedState \<and>
   getCachedVideoInfo offlineUpstream ''v'' failedState = (Inr (exInfo, 0), failedState)"
proof -
  note t = getCachedVideoInfo_round_trip
    [where ?up1.0 = exUpstream and cid = "''v''" and ?st0.0 = emptyState and r = "(exInfo, 0)"
       and ?st1.0 = cachedState and d = "''w''"]
  have a: "awaitInnertube exUpstream = Inr 0" by (simp add: exUpstream_def)
  have n: "''w'' \<noteq> ''v''" by simp
  have p1: "getCachedVideoInfo offlineUpstream ''v'' cachedState = (Inr (exInfo, 0), cachedState)"
    by (rule t[where ?up2.0 = offlineUpstream, THEN conjunct1, rule_format])
       (rule ex_getCachedVideoInfo)
  have p2: "map_option contentId (videoInfoCache supersededState) = Some ''w'' \<and>
      metadataFetches supersededState = metadataFetches cachedState @ [''w''] \<and>
      metadataFetches (snd (getCachedVideoInfo exUpstream ''v'' supersededState)) =
        metadataFetches supersededState @ [''v'']"
    by (rule t[where ?up2.0 = exUpstream and r' = "(exInfo, 0)" and ?st2.0 = supersededState
            and ?up3.0 = exUpstream and it = 0
            and res = "fst (getCachedVideoInfo exUpstream ''v'' supersededState)"
            and ?st3.0 = "snd (getCachedVideoInfo exUpstream ''v'' supersededState)",
          THEN conjunct2, THEN conjunct1, rule_format])
       (simp add: ex_getCachedVideoInfo ex_getCachedVideoInfo_other a)
  have p3: "videoInfoCache failedState = videoInfoCache cachedState \<and>
      getCachedVideoInfo offlineUpstream ''v'' failedState = (Inr (exInfo, 0), failedState)"
    by (rule t[where ?up2.0 = failingUpstream and e = "Failure ''unavailable''"
            and ?st2.0 = failedState and ?up3.0 = offlineUpstream,
          THEN conjunct2, THEN conjunct2, rule_format])
       (simp add: ex_getCachedVideoInfo ex_getCachedVideoInfo_failed)
  show ?thesis
    using ex_getCachedVideoInfo p1 n ex_getCachedVideoInfo_other a p2 ex_getCachedVideoInfo_failed p3
    by blast
qed

subsection \<open>Per-entry error isolation\<close>




























subsection \<open>A cached manifest always yields a URI\<close>

lemma filterLines_subset: "set (filterLines h ls) \<subseteq> set ls"
proof (induction "length ls" arbitrary: ls rule: less_induct)
  case less
  show ?case
  proof (cases ls)
    case Nil
    then show ?thesis by simp
  next
    case (Cons l tl)
    have ih_tl: "set (filterLines h tl) \<subseteq> set tl"
      using less[of tl] Cons by simp
    show ?thesis
    proof (cases "dropWhile (\<lambda>y. \<not> isUriLine y) tl")
      case Nil
      have "filterLines h (l # tl) =
              (if \<not> isStreamInf l then l # filterLines h tl
               else if isH264 (trimUnits l) \<and> matchesHeight h (trimUnits l) then l # filterLines h tl
               else filterLines h tl)"
        by (simp add: Nil)
      with ih_tl show ?thesis unfolding Cons by auto
    next
      case d: (Cons u rest)
      from dropWhile_shorter[OF d] have "length rest < length ls"
        using Cons by simp
      then have ih_rest: "set (filterLines h rest) \<subseteq> set rest"
        by (rule less)
      have "set (u # rest) \<subseteq> set tl"
        using set_dropWhileD[of _ "\<lambda>y. \<not> isUriLine y" tl] unfolding d by blast
      then have u: "u \<in> set tl" and r: "set rest \<subseteq> set tl" by auto
      have "filterLines h (l # tl) =
              (if \<not> isStreamInf l then l # filterLines h tl
               else if isH264 (trimUnits l) \<and> matchesHeight h (trimUnits l) then l # u # filterLines h rest
               else filterLines h rest)"
        by (simp add: d)
      with ih_tl ih_rest u r show ?thesis unfolding Cons by auto
    qed
  qed
qed

lemma no_match_no_streamInf:
  assumes "list_all (\<lambda>l. \<not> (isStreamInf l \<and> isH264 (trimUnits l) \<and> matchesHeight h (trimUnits l))) ls"
  shows "filter isStreamInf (filterLines h ls) = []"
proof -
  have "\<not> isStreamInf x" if "x \<in> set (filterLines h ls)" for x
    using filterLines_streamInf[OF that] filterLines_subset[of h ls] that assms
    by (auto simp: list_all_iff)
  then show ?thesis by (simp add: filter_empty_conv)
qed

text \<open>
  C10. \<open>getFilteredHlsUrl\<close> returns \<open>null\<close> exactly when no manifest is cached. With a
  manifest cached it returns what \<open>writeCacheFile\<close> returns for the filtered text, also
  when no stream-info line matches the height: the emitted lines then hold no stream-info
  line, and for a manifest of plain lines and variants they are the plain lines. The
  result depends on the cached text alone, not on the content id stored with it; after
  \<open>parseHlsQualities\<close> has fetched a text for any content id, that text is what is
  filtered, and \<open>getVideoInfo\<close> never empties the cache.
\<close>

theorem getFilteredHlsUrl_absent_only_without_cache:
  "(getFilteredHlsUrl host h st = None \<longleftrightarrow> hlsManifestCache st = None)
   \<and> (hlsManifestCache st = Some c \<and>
        list_all (\<lambda>l. \<not> (isStreamInf l \<and> isH264 (trimUnits l) \<and> matchesHeight h (trimUnits l)))
          (splitOn 10 (hls_text c)) \<longrightarrow>
        getFilteredHlsUrl host h st =
          Some (writeCacheFile host (''hls_'' @ showInt h @ ''p.m3u8'')
                  (joinWith 10 (filterLines h (splitOn 10 (hls_text c))))) \<and>
        filter isStreamInf (filterLines h (splitOn 10 (hls_text c))) = [])
   \<and> (hlsManifestCache st = Some c \<and> splitOn 10 (hls_text c) = render bs \<and>
        list_all wellFormedBlock bs \<and> list_all (\<lambda>b. \<not> variantAt h b) bs \<longrightarrow>
        getFilteredHlsUrl host h st =
          Some (writeCacheFile host (''hls_'' @ showInt h @ ''p.m3u8'')
                  (joinWith 10 (render (filter isPlain bs)))))
   \<and> (hls_text c1 = hls_text c2 \<longrightarrow>
        getFilteredHlsUrl host h (st\<lparr>hlsManifestCache := Some c1\<rparr>) =
        getFilteredHlsUrl host h (st2\<lparr>hlsManifestCache := Some c2\<rparr>))
   \<and> (fetchText up u = Inr t \<longrightarrow>
        getFilteredHlsUrl host h (snd (parseHlsQualities ng up u cid st)) =
          Some (writeCacheFile host (''hls_'' @ showInt h @ ''p.m3u8'')
                  (joinWith 10 (filterLines h (splitOn 10 t)))))
   \<and> (hlsManifestCache st \<noteq> None \<longrightarrow>
        hlsManifestCache (snd (getVideoInfo ng host up cid st)) \<noteq> None)"
proof (intro conjI)
  show "getFilteredHlsUrl host h st = None \<longleftrightarrow> hlsManifestCache st = None"
    by (simp add: getFilteredHlsUrl_def split: option.splits)
  show "hlsManifestCache st = Some c \<and>
        list_all (\<lambda>l. \<not> (isStreamInf l \<and> isH264 (trimUnits l) \<and> matchesHeight h (trimUnits l)))
          (splitOn 10 (hls_text c)) \<longrightarrow>
        getFilteredHlsUrl host h st =
          Some (writeCacheFile host (''hls_'' @ showInt h @ ''p.m3u8'')
                  (joinWith 10 (filterLines h (splitOn 10 (hls_text c))))) \<and>
        filter isStreamInf (filterLines h (splitOn 10 (hls_text c))) = []"
    by (simp add: getFilteredHlsUrl_cached no_match_no_streamInf)
  show "hlsManifestCache st = Some c \<and> splitOn 10 (hls_text c) = render bs \<and>
        list_all wellFormedBlock bs \<and> list_all (\<lambda>b. \<not> variantAt h b) bs \<longrightarrow>
        getFilteredHlsUrl host h st =
          Some (writeCacheFile host (''hls_'' @ showInt h @ ''p.m3u8'')
                  (joinWith 10 (render (filter isPlain bs))))"
    by (simp add: getFilteredHlsUrl_cached filterLines_render keep_plain_only)
  show "hls_text c1 = hls_text c2 \<longrightarrow>
        getFilteredHlsUrl host h (st\<lparr>hlsManifestCache := Some c1\<rparr>) =
        getFilteredHlsUrl host h (st2\<lparr>hlsManifestCache := Some c2\<rparr>)"
    by (simp add: getFilteredHlsUrl_def)
  show "fetchText up u = Inr t \<longrightarrow>
        getFilteredHlsUrl host h (snd (parseHlsQualities ng up u cid st)) =
          Some (writeCacheFile host (''hls_'' @ showInt h @ ''p.m3u8'')
                  (joinWith 10 (filterLines h (splitOn 10 t))))"
    by (simp add: parseHlsQualities_def getFilteredHlsUrl_def)
  show "hlsManifestCache st \<noteq> None \<longrightarrow>
        hlsManifestCache (snd (getVideoInfo ng host up cid st)) \<noteq> None"
    using hls_cache_getVideoInfo by blast
qed

lemma ex_lit_neq: "lit ''360'' \<noteq> lit ''1080''" "lit ''720'' \<noteq> lit ''1080''"
  by (simp_all add: lit_def)

lemma ex_no_variant_1080: "list_all (\<lambda>b. \<not> variantAt 1080 b) exBlocks"
  by (simp add: exBlocks_def matchesHeight_def ex_codecs ex_resolution ex_showInt lit_def)

lemma ex_no_line_1080:
  "list_all (\<lambda>l. \<not> (isStreamInf l \<and> isH264 (trimUnits l) \<and> matchesHeight 1080 (trimUnits l)))
     (splitOn 10 exManifest)"
  unfolding ex_split exManifestLines_def
  by (simp add: matchesHeight_def ex_codecs ex_resolution ex_showInt ex_lines
      ex_lines(5,6,7)[THEN uri_not_streamInf] ex_lit_neq)

theorem getFilteredHlsUrl_absent_only_without_cache_witness:
  "getFilteredHlsUrl echoHost 1080 emptyState = None \<and> hlsManifestCache emptyState = None \<and>
   list_all (\<lambda>l. \<not> (isStreamInf l \<and> isH264 (trimUnits l) \<and> matchesHeight 1080 (trimUnits l)))
     (splitOn 10 exManifest) \<and>
   getFilteredHlsUrl echoHost 1080 exHlsState = Some ''#EXTM3U'' \<and>
   filter isStreamInf (filterLines 1080 (splitOn 10 exManifest)) = [] \<and>
   splitOn 10 exManifest = render exBlocks \<and> list_all wellFormedBlock exBlocks \<and>
   list_all (\<lambda>b. \<not> variantAt 1080 b) exBlocks \<and>
   getFilteredHlsUrl echoHost 1080 exHlsState =
     Some (map char_of (joinWith 10 (render (filter isPlain exBlocks)))) \<and>
   getFilteredHlsUrl echoHost 1080
     (emptyState\<lparr>hlsManifestCache :=
        Some \<lparr>hls_contentId = ''other'', hls_text = exManifest, hlsUrl = ''http://x''\<rparr>\<rparr>) =
     getFilteredHlsUrl echoHost 1080 exHlsState \<and>
   fetchText exHlsUpstream ''http://m/master.m3u8'' = Inr exManifest \<and>
   getFilteredHlsUrl echoHost 1080
     (snd (parseHlsQualities exNumbers exHlsUpstream ''http://m/master.m3u8'' ''w'' emptyState)) =
     Some ''#EXTM3U'' \<and>
   hlsManifestCache exHlsState \<noteq> None \<and>
   hlsManifestCache (snd (getVideoInfo exNumbers echoHost exHlsUpstream ''w'' exHlsState)) \<noteq> None"
proof -
  let ?c = "\<lparr>hls_contentId = ''v'', hls_text = exManifest, hlsUrl = ''http://m/master.m3u8''\<rparr>"
  let ?c' = "\<lparr>hls_contentId = ''other'', hls_text = exManifest, hlsUrl = ''http://x''\<rparr>"
  note t = getFilteredHlsUrl_absent_only_without_cache[where host = echoHost and h = 1080]
  have e: "hlsManifestCache emptyState = None" by (simp add: emptyState_def)
  have c1: "getFilteredHlsUrl echoHost 1080 emptyState = None"
    using t[where st = emptyState, THEN conjunct1] e by simp
  have l: "list_all (\<lambda>l. \<not> (isStreamInf l \<and> isH264 (trimUnits l) \<and> matchesHeight 1080 (trimUnits l)))
     (splitOn 10 (hls_text ?c))"
    using ex_no_line_1080 by simp
  from t[where st = exHlsState and c = ?c, THEN conjunct2, THEN conjunct1] ex_cache l
  have c2: "getFilteredHlsUrl echoHost 1080 exHlsState =
          Some (writeCacheFile echoHost (''hls_'' @ showInt 1080 @ ''p.m3u8'')
                  (joinWith 10 (filterLines 1080 (splitOn 10 (hls_text ?c)))))"
    and c3: "filter isStreamInf (filterLines 1080 (splitOn 10 (hls_text ?c))) = []"
    by blast+
  have c2': "getFilteredHlsUrl echoHost 1080 exHlsState = Some ''#EXTM3U''"
    unfolding c2 by (simp add: ex_filter_1080 echoHost_def char_of_lit)
  have c3': "filter isStreamInf (filterLines 1080 (splitOn 10 exManifest)) = []"
    using c3 by simp
  have r: "splitOn 10 (hls_text ?c) = render exBlocks" by (simp add: ex_render)
  have c4: "getFilteredHlsUrl echoHost 1080 exHlsState =
     Some (map char_of (joinWith 10 (render (filter isPlain exBlocks))))"
    using t[where st = exHlsState and c = ?c and bs = exBlocks,
        THEN conjunct2, THEN conjunct2, THEN conjunct1]
      ex_cache r ex_wellFormed ex_no_variant_1080
    by (simp add: echoHost_def)
  have s: "exHlsState = exHlsState\<lparr>hlsManifestCache := Some ?c\<rparr>"
    by (simp add: exHlsState_def)
  have c5: "getFilteredHlsUrl echoHost 1080 (emptyState\<lparr>hlsManifestCache := Some ?c'\<rparr>) =
     getFilteredHlsUrl echoHost 1080 exHlsState"
    using t[where ?c1.0 = ?c' and ?c2.0 = ?c and st = emptyState and ?st2.0 = exHlsState,
        THEN conjunct2, THEN conjunct2, THEN conjunct2, THEN conjunct1] s
    by simp
  have f: "fetchText exHlsUpstream ''http://m/master.m3u8'' = Inr exManifest"
    by (simp add: exHlsUpstream_def)
  have c6: "getFilteredHlsUrl echoHost 1080
     (snd (parseHlsQualities exNumbers exHlsUpstream ''http://m/master.m3u8'' ''w'' emptyState)) =
     Some ''#EXTM3U''"
    using t[where st = emptyState and up = exHlsUpstream and u = "''http://m/master.m3u8''"
          and t = exManifest and cid = "''w''" and ng = exNumbers,
        THEN conjunct2, THEN conjunct2, THEN conjunct2, THEN conjunct2, THEN conjunct1] f
    by (simp add: ex_filter_1080 echoHost_def char_of_lit)
  have n: "hlsManifestCache exHlsState \<noteq> None" by (simp add: exHlsState_def)
  have c7: "hlsManifestCache (snd (getVideoInfo exNumbers echoHost exHlsUpstream ''w'' exHlsState)) \<noteq> None"
    using t[where st = exHlsState and up = exHlsUpstream and cid = "''w''" and ng = exNumbers,
        THEN conjunct2, THEN conjunct2, THEN conjunct2, THEN conjunct2, THEN conjunct2] n
    by blast
  show ?thesis
    using c1 e ex_no_line_1080 c2' c3' ex_render[symmetric] ex_wellFormed ex_no_variant_1080
      c4 c5 f c6 n c7
    by (intro conjI)
qed

end
